theory Spec2Isabelle
  imports Complex_Main
begin

section \<open>Data model of \<open>pulse_sequence.py\<close>\<close>

text \<open>
  The module \<open>pulse_sequence.py\<close> defines the class \<open>PulseSequence\<close>. It computes with
  numpy arrays of \<open>complex128\<close> and \<open>float64\<close>; here a \<open>complex128\<close> is a \<open>complex\<close> and a
  \<open>float64\<close> a \<open>real\<close> (exact arithmetic, no rounding and no NaN), except for the one
  non-finite value the source writes itself, \<open>float("inf")\<close>. A one-dimensional array is
  a list, a two-dimensional array a list of rows. Arrays are values: the instance keeps
  the angle and phase arrays it is given, and the model takes it that the caller does
  not write to them afterwards.
\<close>

datatype colour = Carrier | Red | Blue

datatype internal = Ground | Excited

text \<open>
  A \<open>state_specifier\<close> is described by the module docstring as
  \<open>(motional * ?internal * ?phase)\<close> with the defaults \<open>'g'\<close> and \<open>0.0\<close>; the model holds
  all three components, defaults filled in.
\<close>

type_synonym state_specifier = "nat \<times> internal \<times> real"

type_synonym cvec = "complex list"

type_synonym cmat = "complex list list"

datatype assert_msg =
    NoColours
  | AnglesLength nat nat
  | PhasesLength nat nat
  | PhasesNeeded
  | TargetNeeded

datatype error =
    AssertionError assert_msg
  | ValueError
  | TypeError
  | IndexError
  | AttributeError
  | ZeroDivisionError

datatype pyfloat = Fin real | PosInf

subsection \<open>The collaborating modules\<close>

text \<open>
  Modelled from the spec: \<open>state_specifier.py\<close> is not among the sources. The two
  accessors below follow the description of the type in the docstring of
  \<open>pulse_sequence.py\<close>: \<open>motional\<close> reads the motional level, \<open>set_phase\<close> replaces
  the phase.
\<close>

definition motional :: "state_specifier \<Rightarrow> nat" where
  "motional s = fst s"

definition set_phase :: "state_specifier \<Rightarrow> real \<Rightarrow> state_specifier" where
  "set_phase s p = (fst s, fst (snd s), p)"

text \<open>
  Everything else the class takes from \<open>pulse_matrices\<close> (\<open>pm\<close>) and \<open>state_specifier\<close>
  is a parameter of the model: the number of motional states a colour sequence needs,
  the builder of state vectors, the matrix of a \<open>ColourOperator\<close> and its derivative as
  functions of colour, truncation size and current angle (\<open>None\<close> before the first
  angle is set), the inner product \<open>pm.inner_product\<close>, and the basis index
  \<open>state.idx\<close>.
\<close>

record provider =
  motional_states_needed :: "colour list \<Rightarrow> nat"
  build_state_vector :: "state_specifier list \<Rightarrow> nat \<Rightarrow> cvec"
  op_matrix :: "colour \<Rightarrow> nat \<Rightarrow> real option \<Rightarrow> cmat"
  d_op_matrix :: "colour \<Rightarrow> nat \<Rightarrow> real option \<Rightarrow> cmat"
  inner_product :: "cvec \<Rightarrow> cmat \<Rightarrow> cvec \<Rightarrow> complex"
  idx :: "state_specifier \<Rightarrow> nat \<Rightarrow> nat"

text \<open>
  \<open>np.empty\<close> returns memory that is not initialised. The contents of each such buffer
  are a parameter: \<open>junk_c b k\<close> is the cell at flat offset \<open>k\<close> of the complex buffer
  number \<open>b\<close>, \<open>junk_r b k\<close> the same for the real buffers.
\<close>

record uninit =
  junk_c :: "nat \<Rightarrow> nat \<Rightarrow> complex"
  junk_r :: "nat \<Rightarrow> nat \<Rightarrow> real"

subsection \<open>The numpy operations the class uses\<close>

definition np_empty_mat :: "(nat \<Rightarrow> complex) \<Rightarrow> nat \<Rightarrow> cmat" where
  "np_empty_mat g d = map (\<lambda>i. map (\<lambda>j. g (i * d + j)) [0..<d]) [0..<d]"

definition np_empty_mats :: "(nat \<Rightarrow> complex) \<Rightarrow> nat \<Rightarrow> nat \<Rightarrow> cmat list" where
  "np_empty_mats g l d = map (\<lambda>k. np_empty_mat (\<lambda>c. g (k * d * d + c)) d) [0..<l]"

definition np_empty_vec :: "(nat \<Rightarrow> real) \<Rightarrow> nat \<Rightarrow> real list" where
  "np_empty_vec g n = map g [0..<n]"

definition np_identity :: "nat \<Rightarrow> cmat" where
  "np_identity d = map (\<lambda>i. map (\<lambda>j. if i = j then 1 else 0) [0..<d]) [0..<d]"

definition ncols :: "cmat \<Rightarrow> nat" where
  "ncols b = (case b of [] \<Rightarrow> 0 | r # _ \<Rightarrow> length r)"

text \<open>\<open>np.dot\<close> of two matrices, of a matrix and a vector.\<close>

definition dot_mm :: "cmat \<Rightarrow> cmat \<Rightarrow> cmat" where
  "dot_mm a b =
     map (\<lambda>row. map (\<lambda>j. sum_list (map (\<lambda>k. row ! k * b ! k ! j) [0..<length b]))
                      [0..<ncols b]) a"

definition dot_mv :: "cmat \<Rightarrow> cvec \<Rightarrow> cvec" where
  "dot_mv a v = map (\<lambda>row. sum_list (map (\<lambda>k. row ! k * v ! k) [0..<length v])) a"

text \<open>
  \<open>np.array_equal(cached, given)\<close>, called with a cached vector that is \<open>None\<close> until
  the first update: \<open>None\<close> becomes an array of shape \<open>()\<close>, which equals no vector.
\<close>

definition array_equal :: "real list option \<Rightarrow> real list \<Rightarrow> bool" where
  "array_equal cached given = (cached = Some given)"

text \<open>Python's slices \<open>xs[:i]\<close> and \<open>xs[i:]\<close>; a negative bound counts from the end.\<close>

definition slice_to :: "'a list \<Rightarrow> int \<Rightarrow> 'a list" where
  "slice_to xs i = (if i < 0 then take (nat (int (length xs) + i)) xs else take (nat i) xs)"

definition slice_from :: "'a list \<Rightarrow> int \<Rightarrow> 'a list" where
  "slice_from xs i = (if i < 0 then drop (nat (int (length xs) + i)) xs else drop (nat i) xs)"

text \<open>The element \<open>xs[-k]\<close> for \<open>1 \<le> k \<le> len(xs)\<close>.\<close>

definition nth_neg :: "'a list \<Rightarrow> nat \<Rightarrow> 'a" where
  "nth_neg xs k = xs ! (length xs - k)"

text \<open>Python's \<open>max\<close> of a list: \<open>ValueError\<close> on the empty list.\<close>

definition py_max :: "nat list \<Rightarrow> error + nat" where
  "py_max xs = (case xs of [] \<Rightarrow> Inl ValueError | y # ys \<Rightarrow> Inr (fold max ys y))"

subsection \<open>The state of a \<open>PulseSequence\<close>\<close>

text \<open>
  A \<open>ColourOperator\<close> holds its colour, the truncation size and the current angle; its
  attributes \<open>op\<close> and \<open>d_op\<close> are the provider's matrices at that angle.
\<close>

record colour_operator =
  co_colour :: colour
  co_ns :: nat
  co_angle :: "real option"

definition op :: "provider \<Rightarrow> colour_operator \<Rightarrow> cmat" where
  "op pm c = op_matrix pm (co_colour c) (co_ns c) (co_angle c)"

definition d_op :: "provider \<Rightarrow> colour_operator \<Rightarrow> cmat" where
  "d_op pm c = d_op_matrix pm (co_colour c) (co_ns c) (co_angle c)"

text \<open>
  The attributes of the instance. A public attribute keeps its name; a private one
  (\<open>self.__x\<close>) is the field \<open>m_x\<close>. The four outputs that exist only when a target
  is configured are \<open>None\<close> otherwise.
\<close>

record pulse_sequence =
  colours :: "colour list"
  m_len :: nat
  m_n_phases :: "int option"
  ns :: nat
  fixed_phase :: bool
  target :: "state_specifier list option"
  m_target :: "cvec option"
  start :: cvec
  m_lin_ops :: "colour_operator list"
  m_angles :: "real list option"
  m_phases :: "real list option"
  m_u :: cmat
  m_d_u :: "cmat list"
  m_new_target :: "state_specifier list option"
  m_dist :: "pyfloat option"
  m_d_dist_angles :: "real list option"
  m_d_dist_phases :: "real list option"
  m_id :: cmat
  m_partials_ltr :: "cmat list"
  m_partials_rtl :: "cmat list"
  m_temp :: cmat
  m_tus :: complex

text \<open>
  A method returns its outcome, an error or a value, together with the instance as the
  call leaves it: an exception does not undo the assignments made before it.
\<close>

type_synonym 'a outcome = "(error + 'a) \<times> pulse_sequence"

definition and_then :: "'a outcome \<Rightarrow> ('a \<Rightarrow> pulse_sequence \<Rightarrow> 'b outcome) \<Rightarrow> 'b outcome" where
  "and_then r f = (case r of (Inl e, s) \<Rightarrow> (Inl e, s) | (Inr x, s) \<Rightarrow> f x s)"

section \<open>The constructor\<close>

text \<open>
  \<open>__init__\<close>. The comparison \<open>self.__n_phases is 0\<close> is an identity test; CPython keeps
  one object for each small integer, so it holds exactly when the number is \<open>0\<close>.
\<close>

definition default_start :: "state_specifier list option \<Rightarrow> state_specifier list" where
  "default_start st = (case st of Some s \<Rightarrow> s | None \<Rightarrow> [(0, Ground, 0)])"

text \<open>
  The truncation size \<open>self.ns\<close>: the largest of what the colours need, the highest
  motional level of the start state plus one, and the same for the target (0 without
  a target). \<open>max\<close> of an empty start or target list raises \<open>ValueError\<close>.
\<close>

definition truncation_size ::
  "provider \<Rightarrow> colour list \<Rightarrow> state_specifier list \<Rightarrow> state_specifier list option \<Rightarrow>
   error + nat" where
  "truncation_size pm cols st' tgt =
     (case py_max (map motional st') of
        Inl e \<Rightarrow> Inl e
      | Inr ms \<Rightarrow>
         (case tgt of
            None \<Rightarrow> Inr (max (max (motional_states_needed pm cols) (ms + 1)) 0)
          | Some t \<Rightarrow>
             (case py_max (map motional t) of
                Inl e \<Rightarrow> Inl e
              | Inr mt \<Rightarrow> Inr (max (max (motional_states_needed pm cols) (ms + 1)) (mt + 1)))))"

text \<open>The attributes as the constructor leaves them, for the truncation size \<open>n\<close>.\<close>

definition new_instance ::
  "provider \<Rightarrow> uninit \<Rightarrow> colour list \<Rightarrow> state_specifier list option \<Rightarrow> bool \<Rightarrow>
   state_specifier list \<Rightarrow> nat \<Rightarrow> pulse_sequence" where
  "new_instance pm mem cols tgt fixed st' n =
     \<lparr> colours = cols,
       m_len = length cols,
       m_n_phases = map_option (\<lambda>t. int (length t) - 1) tgt,
       ns = n,
       fixed_phase = (fixed \<or> map_option (\<lambda>t. int (length t) - 1) tgt = Some 0),
       target = tgt,
       m_target = map_option (\<lambda>t. build_state_vector pm t n) tgt,
       start = build_state_vector pm st' n,
       m_lin_ops = map (\<lambda>c. \<lparr> co_colour = c, co_ns = n, co_angle = None \<rparr>) cols,
       m_angles = None,
       m_phases = None,
       m_u = np_empty_mat (junk_c mem 0) (2 * n),
       m_d_u = np_empty_mats (junk_c mem 1) (length cols) (2 * n),
       m_new_target = map_option (map (\<lambda>_. (0, Ground, 0))) tgt,
       m_dist = map_option (\<lambda>_. PosInf) tgt,
       m_d_dist_angles = map_option (\<lambda>_. np_empty_vec (junk_r mem 0) (length cols)) tgt,
       m_d_dist_phases = map_option (\<lambda>t. np_empty_vec (junk_r mem 1) (length t - 1)) tgt,
       m_id = np_identity (2 * n),
       m_partials_ltr =
         (np_empty_mats (junk_c mem 2) (length cols) (2 * n))[0 := np_identity (2 * n)],
       m_partials_rtl =
         (np_empty_mats (junk_c mem 3) (length cols) (2 * n))[0 := np_identity (2 * n)],
       m_temp = np_empty_mat (junk_c mem 4) (2 * n),
       m_tus = 0 \<rparr>"

definition init ::
  "provider \<Rightarrow> uninit \<Rightarrow> colour list \<Rightarrow> state_specifier list option \<Rightarrow> bool \<Rightarrow>
   state_specifier list option \<Rightarrow> error + pulse_sequence" where
  "init pm mem cols tgt fixed st =
     (if \<not> length cols > 0 then Inl (AssertionError NoColours)
      else case truncation_size pm cols (default_start st) tgt of
             Inl e \<Rightarrow> Inl e
           | Inr n \<Rightarrow> Inr (new_instance pm mem cols tgt fixed (default_start st) n))"

section \<open>The private methods\<close>

text \<open>
  \<open>__update_target_phases\<close>: component 0 of the target gets phase 0, component
  \<open>i + 1\<close> gets \<open>self.__phases[i]\<close>, and the target vector is rebuilt. Indexing
  \<open>self.__phases\<close> raises \<open>TypeError\<close> while it is still \<open>None\<close>; reading past its end,
  or writing past the end of \<open>self.__new_target\<close>, raises \<open>IndexError\<close>. An exception
  leaves the entries written so far in place.
\<close>

fun set_phases_loop ::
  "state_specifier list \<Rightarrow> nat \<Rightarrow> real list option \<Rightarrow> state_specifier list \<Rightarrow>
   error option \<times> state_specifier list" where
  "set_phases_loop [] i phs nt = (None, nt)"
| "set_phases_loop (el # els) i phs nt =
     (case phs of
        None \<Rightarrow> (Some TypeError, nt)
      | Some ph \<Rightarrow>
          if i < length ph \<and> i + 1 < length nt
          then set_phases_loop els (i + 1) phs (nt[i + 1 := set_phase el (ph ! i)])
          else (Some IndexError, nt))"

definition update_target_phases :: "provider \<Rightarrow> pulse_sequence \<Rightarrow> unit outcome" where
  "update_target_phases pm ps =
     (case target ps of
        None \<Rightarrow> (Inl TypeError, ps)
      | Some [] \<Rightarrow> (Inl IndexError, ps)
      | Some (t0 # rest) \<Rightarrow>
          (case m_new_target ps of
             None \<Rightarrow> (Inl AttributeError, ps)
           | Some [] \<Rightarrow> (Inl IndexError, ps)
           | Some (n0 # ns0) \<Rightarrow>
               (case set_phases_loop rest 0 (m_phases ps) (set_phase t0 0 # ns0) of
                  (Some e, nt') \<Rightarrow> (Inl e, ps\<lparr>m_new_target := Some nt'\<rparr>)
                | (None, nt') \<Rightarrow>
                    (Inr (), ps\<lparr>m_new_target := Some nt',
                                 m_target := Some (build_state_vector pm nt' (ns ps))\<rparr>))))"

text \<open>
  \<open>__update_propagator_and_derivatives\<close>. The first loop fills the partial products,
  the second the derivatives; \<open>self.__lin_ops[-(i + 1)]\<close> and
  \<open>self.__partials_rtl[-(i + 1)]\<close> count from the end. Every index stays inside the
  buffers as the constructor shaped them (\<open>L\<close> operators, \<open>L\<close> partial products of
  each kind, \<open>L\<close> derivatives), so no access fails here.
\<close>

definition partials_step ::
  "provider \<Rightarrow> colour_operator list \<Rightarrow> cmat list \<times> cmat list \<Rightarrow> nat \<Rightarrow> cmat list \<times> cmat list" where
  "partials_step pm ops p i =
     ((fst p)[i + 1 := dot_mm (fst p ! i) (op pm (ops ! i))],
      (snd p)[i + 1 := dot_mm (op pm (nth_neg ops (i + 1))) (snd p ! i)])"

definition derivative_step ::
  "provider \<Rightarrow> colour_operator list \<Rightarrow> cmat list \<Rightarrow> cmat list \<Rightarrow>
   cmat \<times> cmat list \<Rightarrow> nat \<Rightarrow> cmat \<times> cmat list" where
  "derivative_step pm ops ltr rtl td i =
     (let tmp = dot_mm (ltr ! i) (d_op pm (ops ! i))
      in (tmp, (snd td)[i := dot_mm tmp (nth_neg rtl (i + 1))]))"

definition update_propagator_and_derivatives :: "provider \<Rightarrow> pulse_sequence \<Rightarrow> pulse_sequence" where
  "update_propagator_and_derivatives pm ps =
     (let ops = m_lin_ops ps;
          p = foldl (partials_step pm ops) (m_partials_ltr ps, m_partials_rtl ps)
                [0..<m_len ps - 1];
          ltr = fst p;
          rtl = snd p;
          u' = dot_mm (nth_neg ltr 1) (op pm (nth_neg ops 1));
          td = foldl (derivative_step pm ops ltr rtl) (m_temp ps, m_d_u ps) [0..<m_len ps]
      in ps\<lparr>m_partials_ltr := ltr, m_partials_rtl := rtl, m_u := u',
              m_temp := fst td, m_d_u := snd td\<rparr>)"

text \<open>
  The three distance updates run only under the guard \<open>self.__target is not None\<close> of
  \<open>__calculate_all\<close>, which hands them the target vector \<open>t\<close>. The array
  \<open>self.__d_dist_angles\<close> that the second one fills was created by the constructor
  together with the target vector.
\<close>

definition update_distance :: "provider \<Rightarrow> cvec \<Rightarrow> pulse_sequence \<Rightarrow> pulse_sequence" where
  "update_distance pm t ps =
     (let tus = inner_product pm t (m_u ps) (start ps)
      in ps\<lparr>m_tus := tus, m_dist := Some (Fin (1 - Re (tus * cnj tus)))\<rparr>)"

definition update_distance_angle_derivatives ::
  "provider \<Rightarrow> cvec \<Rightarrow> pulse_sequence \<Rightarrow> pulse_sequence" where
  "update_distance_angle_derivatives pm t ps =
     ps\<lparr>m_d_dist_angles :=
          map_option
            (\<lambda>arr. foldl (\<lambda>a i. a[i := - 2 * Re (cnj (m_tus ps) *
                                        inner_product pm t (m_d_u ps ! i) (start ps))])
                      arr [0..<m_len ps])
            (m_d_dist_angles ps)\<rparr>"

text \<open>
  \<open>__update_distance_phase_derivatives\<close>: the prefactor divides by the square root of
  the number of target components; \<open>self.target[i + 1]\<close>, \<open>u_start[idx]\<close> and the
  write to \<open>self.__d_dist_phases[i]\<close> raise \<open>IndexError\<close> outside their ranges, and the
  entries written before stay written. \<open>phase_derivative\<close> is the right-hand side of
  the assignment in the loop, evaluated before the array on the left is looked up.
\<close>

fun phase_derivatives_loop ::
  "(nat \<Rightarrow> real \<Rightarrow> error + real) \<Rightarrow> nat \<Rightarrow> real list \<Rightarrow> real list \<Rightarrow>
   error option \<times> real list" where
  "phase_derivatives_loop f i [] arr = (None, arr)"
| "phase_derivatives_loop f i (pre_phase # rest) arr =
     (case f i pre_phase of
        Inl e \<Rightarrow> (Some e, arr)
      | Inr v \<Rightarrow>
          if i < length arr then phase_derivatives_loop f (i + 1) rest (arr[i := v])
          else (Some IndexError, arr))"

definition phase_derivative ::
  "provider \<Rightarrow> pulse_sequence \<Rightarrow> state_specifier list \<Rightarrow> nat \<Rightarrow> real \<Rightarrow> error + real" where
  "phase_derivative pm ps tg i pre_phase =
     (let pref = 2 / sqrt (real (length tg));
          u_start = dot_mv (m_u ps) (start ps);
          phase = exp (\<i> * complex_of_real (pi * (1 / 2 - pre_phase)))
      in if i + 1 < length tg
         then (let k = idx pm (tg ! (i + 1)) (ns ps)
               in if k < length u_start
                  then Inr (pref * Re (phase * u_start ! k * cnj (m_tus ps)))
                  else Inl IndexError)
         else Inl IndexError)"

definition update_distance_phase_derivatives :: "provider \<Rightarrow> pulse_sequence \<Rightarrow> unit outcome" where
  "update_distance_phase_derivatives pm ps =
     (case target ps of
        None \<Rightarrow> (Inl TypeError, ps)
      | Some [] \<Rightarrow> (Inl ZeroDivisionError, ps)
      | Some (t0 # rest) \<Rightarrow>
          (case m_phases ps of
             None \<Rightarrow> (Inl TypeError, ps)
           | Some ph \<Rightarrow>
               (case m_d_dist_phases ps of
                  None \<Rightarrow>
                    (case ph of
                       [] \<Rightarrow> (Inr (), ps)
                     | pre_phase # _ \<Rightarrow>
                         (case phase_derivative pm ps (t0 # rest) 0 pre_phase of
                            Inl e \<Rightarrow> (Inl e, ps)
                          | Inr _ \<Rightarrow> (Inl AttributeError, ps)))
                | Some arr \<Rightarrow>
                    (case phase_derivatives_loop (phase_derivative pm ps (t0 # rest)) 0 ph arr of
                       (Some e, arr') \<Rightarrow> (Inl e, ps\<lparr>m_d_dist_phases := Some arr'\<rparr>)
                     | (None, arr') \<Rightarrow> (Inr (), ps\<lparr>m_d_dist_phases := Some arr'\<rparr>)))))"

text \<open>\<open>__update_angles_if_required\<close>.\<close>

definition set_angles :: "colour_operator list \<Rightarrow> real list \<Rightarrow> colour_operator list" where
  "set_angles ops a =
     foldl (\<lambda>os i. os[i := (os ! i)\<lparr>co_angle := Some (a ! i)\<rparr>]) ops [0..<length a]"

definition update_angles_if_required :: "pulse_sequence \<Rightarrow> real list option \<Rightarrow> bool outcome" where
  "update_angles_if_required ps angles =
     (case angles of
        None \<Rightarrow> (Inr False, ps)
      | Some a \<Rightarrow>
          if length a \<noteq> m_len ps
          then (Inl (AssertionError (AnglesLength (m_len ps) (length a))), ps)
          else if array_equal (m_angles ps) a then (Inr False, ps)
          else (Inr True, ps\<lparr>m_angles := Some a, m_lin_ops := set_angles (m_lin_ops ps) a\<rparr>))"

text \<open>
  \<open>__update_phases_if_required\<close>. The three tests of the first \<open>if\<close> run in order, so
  a fixed-phase instance never looks at \<open>phases\<close>. With as many phases as the target
  has components, \<open>np.vectorize\<close> subtracts \<open>phases[0]\<close> from each element of
  \<open>phases[1:]\<close>; it raises \<open>ValueError\<close> when \<open>phases[1:]\<close> is empty.
\<close>

definition update_phases_if_required ::
  "provider \<Rightarrow> pulse_sequence \<Rightarrow> real list option \<Rightarrow> bool outcome" where
  "update_phases_if_required pm ps phases =
     (if fixed_phase ps then (Inr False, ps)
      else case phases of
        None \<Rightarrow> (Inr False, ps)
      | Some p \<Rightarrow>
          if array_equal (m_phases ps) p then (Inr False, ps)
          else (case target ps of
            None \<Rightarrow> (Inl TypeError, ps)
          | Some tg \<Rightarrow>
              let diff = int (length tg) - int (length p)
              in if \<not> (0 \<le> diff \<and> diff \<le> 1)
                 then (Inl (AssertionError (PhasesLength (length tg) (length p))), ps)
                 else if int (length p) = int (length tg) - 1
                 then and_then (update_target_phases pm (ps\<lparr>m_phases := Some p\<rparr>))
                        (\<lambda>_ ps'. (Inr True, ps'))
                 else if slice_from p 1 = [] then (Inl ValueError, ps)
                 else and_then
                        (update_target_phases pm
                           (ps\<lparr>m_phases := Some (map (\<lambda>x. x - p ! 0) (slice_from p 1))\<rparr>))
                        (\<lambda>_ ps'. (Inr True, ps'))))"

text \<open>\<open>__calculate_propagator\<close> and \<open>__calculate_all\<close>.\<close>

definition calculate_propagator ::
  "provider \<Rightarrow> pulse_sequence \<Rightarrow> real list option \<Rightarrow> unit outcome" where
  "calculate_propagator pm ps angles =
     and_then (update_angles_if_required ps angles)
       (\<lambda>updated ps'. (Inr (), if updated then update_propagator_and_derivatives pm ps' else ps'))"

definition calculate_all ::
  "provider \<Rightarrow> pulse_sequence \<Rightarrow> real list option \<Rightarrow> real list option \<Rightarrow> unit outcome" where
  "calculate_all pm ps angles phases =
     (if \<not> (m_target ps = None \<or> fixed_phase ps \<or> phases \<noteq> None)
      then (Inl (AssertionError PhasesNeeded), ps)
      else
        and_then (update_angles_if_required ps angles) (\<lambda>updated_angles ps1.
        and_then (update_phases_if_required pm ps1 phases) (\<lambda>updated_phases ps2.
          if \<not> (updated_angles \<or> updated_phases) then (Inr (), ps2)
          else
            let ps3 = (if updated_angles then update_propagator_and_derivatives pm ps2 else ps2)
            in case m_target ps3 of
                 None \<Rightarrow> (Inr (), ps3)
               | Some t \<Rightarrow>
                   let ps4 = update_distance pm t ps3;
                       ps5 = (if updated_angles
                              then update_distance_angle_derivatives pm t ps4 else ps4)
                   in if updated_phases then update_distance_phase_derivatives pm ps5
                      else (Inr (), ps5))))"

section \<open>The public methods\<close>

definition U :: "provider \<Rightarrow> pulse_sequence \<Rightarrow> real list option \<Rightarrow> cmat outcome" where
  "U pm ps angles =
     and_then (calculate_propagator pm ps angles) (\<lambda>_ ps'. (Inr (m_u ps'), ps'))"

definition d_U :: "provider \<Rightarrow> pulse_sequence \<Rightarrow> real list option \<Rightarrow> cmat list outcome" where
  "d_U pm ps angles =
     and_then (calculate_propagator pm ps angles) (\<lambda>_ ps'. (Inr (m_d_u ps'), ps'))"

text \<open>
  \<open>distance\<close> returns \<open>self.__dist\<close>, an attribute that exists only when a target was
  given; the first assertion has excluded the other case.
\<close>

definition distance ::
  "provider \<Rightarrow> pulse_sequence \<Rightarrow> real list option \<Rightarrow> real list option \<Rightarrow> pyfloat outcome" where
  "distance pm ps angles phases =
     (if m_target ps = None then (Inl (AssertionError TargetNeeded), ps)
      else and_then (calculate_all pm ps angles phases)
             (\<lambda>_ ps'. case m_dist ps' of
                         Some d \<Rightarrow> (Inr d, ps')
                       | None \<Rightarrow> (Inl AttributeError, ps')))"

datatype gradient = AnglesOnly "real list" | AnglesAndPhases "real list" "real list"

definition d_distance ::
  "provider \<Rightarrow> pulse_sequence \<Rightarrow> real list option \<Rightarrow> real list option \<Rightarrow> gradient outcome" where
  "d_distance pm ps angles phases =
     (if m_target ps = None then (Inl (AssertionError TargetNeeded), ps)
      else if \<not> (fixed_phase ps \<or> phases \<noteq> None)
      then (Inl (AssertionError PhasesNeeded), ps)
      else and_then (calculate_all pm ps angles phases)
             (\<lambda>_ ps'. case m_d_dist_angles ps' of
                         None \<Rightarrow> (Inl AttributeError, ps')
                       | Some da \<Rightarrow>
                           if fixed_phase ps' then (Inr (AnglesOnly da), ps')
                           else (case m_d_dist_phases ps' of
                                   None \<Rightarrow> (Inl AttributeError, ps')
                                 | Some dp \<Rightarrow> (Inr (AnglesAndPhases da dp), ps'))))"

text \<open>
  \<open>split_result\<close>, applied to the solution vector \<open>opt_res.x\<close>. Negating
  \<open>self.__n_phases\<close> raises \<open>TypeError\<close> when no target was given.
\<close>

definition split_result :: "pulse_sequence \<Rightarrow> real list \<Rightarrow> error + (real list \<times> real list)" where
  "split_result ps x =
     (if fixed_phase ps then Inr (x, [0])
      else case m_n_phases ps of
             None \<Rightarrow> Inl TypeError
           | Some n \<Rightarrow> Inr (slice_to x (- n), 0 # slice_from x (- n)))"

text \<open>
  \<open>trace\<close> with \<open>fmt=False\<close>: the start state, then the state after each pulse, the
  last operator of the list applied first.
\<close>

definition trace :: "provider \<Rightarrow> pulse_sequence \<Rightarrow> real list option \<Rightarrow> cvec list outcome" where
  "trace pm ps angles =
     and_then (update_angles_if_required ps angles)
       (\<lambda>_ ps'. (Inr (foldl (\<lambda>out i. out @ [dot_mv (op pm (m_lin_ops ps' ! (m_len ps' - i - 1)))
                                              (out ! i)])
                         [start ps'] [0..<m_len ps']), ps'))"

section \<open>Notions used to state the properties\<close>

text \<open>
  The matrices \<open>Op[0], ..., Op[L-1]\<close> of a colour sequence at the angles \<open>a\<close>, and the
  product \<open>I \<cdot> M\<^sub>0 \<cdot> M\<^sub>1 \<cdot> \<dots>\<close> of a list of matrices, multiplied from the left as
  \<open>np.dot\<close> is applied. An instance is well formed when its buffers have the shape the
  constructor gave them.
\<close>

definition pulse_matrices :: "provider \<Rightarrow> colour list \<Rightarrow> nat \<Rightarrow> real list \<Rightarrow> cmat list" where
  "pulse_matrices pm cols n a = map2 (\<lambda>c x. op_matrix pm c n (Some x)) cols a"

definition matrix_product :: "nat \<Rightarrow> cmat list \<Rightarrow> cmat" where
  "matrix_product d ms = foldl dot_mm (np_identity d) ms"

definition well_formed :: "pulse_sequence \<Rightarrow> bool" where
  "well_formed ps =
     (0 < m_len ps \<and> length (colours ps) = m_len ps \<and>
      map co_colour (m_lin_ops ps) = colours ps \<and>
      map co_ns (m_lin_ops ps) = replicate (m_len ps) (ns ps) \<and>
      length (m_partials_ltr ps) = m_len ps \<and>
      m_partials_ltr ps ! 0 = np_identity (2 * ns ps) \<and>
      length (m_partials_rtl ps) = m_len ps \<and>
      m_partials_rtl ps ! 0 = np_identity (2 * ns ps))"

text \<open>
  The life of an instance after construction is a sequence of method calls; \<open>run\<close>
  gives the instance they leave behind, whether they return or raise. The
  configuration is what the constructor fixes once and for all.
\<close>

datatype call =
    Call_U "real list option"
  | Call_d_U "real list option"
  | Call_distance "real list option" "real list option"
  | Call_d_distance "real list option" "real list option"
  | Call_trace "real list option"

definition after_call :: "provider \<Rightarrow> pulse_sequence \<Rightarrow> call \<Rightarrow> pulse_sequence" where
  "after_call pm ps c =
     (case c of
        Call_U angles \<Rightarrow> snd (U pm ps angles)
      | Call_d_U angles \<Rightarrow> snd (d_U pm ps angles)
      | Call_distance angles phases \<Rightarrow> snd (distance pm ps angles phases)
      | Call_d_distance angles phases \<Rightarrow> snd (d_distance pm ps angles phases)
      | Call_trace angles \<Rightarrow> snd (trace pm ps angles))"

definition run :: "provider \<Rightarrow> pulse_sequence \<Rightarrow> call list \<Rightarrow> pulse_sequence" where
  "run pm ps calls = foldl (after_call pm) ps calls"

definition config ::
  "pulse_sequence \<Rightarrow>
   colour list \<times> nat \<times> int option \<times> nat \<times> bool \<times> state_specifier list option \<times> cvec \<times> cmat" where
  "config ps =
     (colours ps, m_len ps, m_n_phases ps, ns ps, fixed_phase ps, target ps, start ps, m_id ps)"

text \<open>
  What \<open>__update_phases_if_required\<close> stores for a phase argument \<open>p\<close> and a target
  of \<open>k\<close> components: \<open>p\<close> itself when it has \<open>k - 1\<close> entries, and otherwise all
  entries but the first, each less the first. The target components with the stored
  phases put in are the first component at phase 0 and each other component at its
  stored phase.
\<close>

definition stored_phases :: "nat \<Rightarrow> real list \<Rightarrow> real list" where
  "stored_phases k p = (if length p + 1 = k then p else map (\<lambda>x. x - p ! 0) (tl p))"

definition pinned_target :: "state_specifier list \<Rightarrow> real list \<Rightarrow> state_specifier list" where
  "pinned_target tg ph = set_phase (hd tg) 0 # map2 set_phase (tl tg) ph"

text \<open>
  The target vector and the scratch list \<open>__new_target\<close> exist exactly when a target
  was given, the scratch list is as long as the target, and the cached phases, once
  set, are one fewer than the target's components and are the phases of the scratch
  list.
\<close>

definition phases_ok :: "pulse_sequence \<Rightarrow> bool" where
  "phases_ok ps =
     ((m_target ps = None) = (target ps = None) \<and>
      map_option length (m_new_target ps) = map_option length (target ps) \<and>
      (m_phases ps = None \<or>
       map_option (\<lambda>ph. length ph + 1) (m_phases ps) = map_option length (target ps) \<and>
       m_new_target ps
         = map_option (\<lambda>tg. pinned_target tg (the (m_phases ps))) (target ps)))"

definition invariant :: "pulse_sequence \<Rightarrow> pulse_sequence \<Rightarrow> bool" where
  "invariant ps0 ps = (config ps = config ps0 \<and> well_formed ps \<and> phases_ok ps)"

text \<open>
  The two usage errors of \<open>distance\<close> and \<open>d_distance\<close>: no target configured, and no
  phases given outside fixed-phase mode.
\<close>

definition usage_error :: "error \<Rightarrow> bool" where
  "usage_error e = (e = AssertionError TargetNeeded \<or> e = AssertionError PhasesNeeded)"

text \<open>
  For the value of the distance: the squared modulus as the code computes it,
  \<open>(z * conj(z)).real\<close>; the squared norm of a vector; the overlap \<open>\<langle>t|w\<rangle>\<close> of two
  vectors; and unitarity of a \<open>d \<times> d\<close> matrix, stated on its entries as
  \<open>\<Sum>\<^sub>r m\<^sub>r\<^sub>k \<cdot> conj(m\<^sub>r\<^sub>j) = \<delta>\<^sub>k\<^sub>j\<close>.
\<close>

definition abs_sq :: "complex \<Rightarrow> real" where
  "abs_sq z = Re (z * cnj z)"

definition norm_sq :: "cvec \<Rightarrow> real" where
  "norm_sq v = sum_list (map abs_sq v)"

definition hdot :: "cvec \<Rightarrow> cvec \<Rightarrow> complex" where
  "hdot t w = sum_list (map2 (\<lambda>x y. cnj x * y) t w)"

text \<open>
  Modelled from the spec: \<open>pm.inner_product\<close> is not among the sources. The spec gives
  the distance as \<open>1 - |\<langle>target|U|start\<rangle>|\<^sup>2\<close>; \<open>braket t u s\<close> is that overlap
  \<open>\<langle>t|u|s\<rangle>\<close>. The class itself takes the inner product from the provider; the
  properties that need its value assume that the provider's is this one.
\<close>

definition braket :: "cvec \<Rightarrow> cmat \<Rightarrow> cvec \<Rightarrow> complex" where
  "braket t u s = sum_list (map (\<lambda>i. cnj (t ! i) * dot_mv u s ! i) [0..<length t])"

definition is_unitary :: "nat \<Rightarrow> cmat \<Rightarrow> bool" where
  "is_unitary d m =
     (length m = d \<and> list_all (\<lambda>row. length row = d) m \<and>
      list_all (\<lambda>k. list_all (\<lambda>j.
          sum_list (map (\<lambda>r. m ! r ! k * cnj (m ! r ! j)) [0..<d]) = (if k = j then 1 else 0))
        [0..<d]) [0..<d])"

section \<open>An example provider\<close>

text \<open>
  A provider on which the model can be evaluated. The pulse matrices of the repository
  are trigonometric in the angle; the example replaces cosine and sine by the rational
  parametrisation of the circle, so that its operators are unitary at every angle and
  have rational entries at rational angles. A carrier pulse mixes the two internal
  levels of each motional level, a sideband pulse multiplies one internal level by a
  phase. The basis index puts the excited levels first, as \<open>__print_trace\<close> labels them.
\<close>

definition rot_cos :: "real \<Rightarrow> real" where
  "rot_cos t = (1 - t * t) / (1 + t * t)"

definition rot_sin :: "real \<Rightarrow> real" where
  "rot_sin t = 2 * t / (1 + t * t)"

definition example_op :: "colour \<Rightarrow> nat \<Rightarrow> real option \<Rightarrow> cmat" where
  "example_op c n angle =
     (let t = (case angle of None \<Rightarrow> 0 | Some x \<Rightarrow> x)
      in map (\<lambda>i. map (\<lambda>j.
           case c of
             Carrier \<Rightarrow> (if i = j then Complex (rot_cos t) 0
                         else if j = (i + n) mod (2 * n) then Complex 0 (- rot_sin t)
                         else 0)
           | Red \<Rightarrow> (if i = j then (if i < n then 1 else Complex (rot_cos t) (rot_sin t)) else 0)
           | Blue \<Rightarrow> (if i = j then (if i < n then Complex (rot_cos t) (rot_sin t) else 1) else 0))
           [0..<2 * n]) [0..<2 * n])"

definition example_idx :: "state_specifier \<Rightarrow> nat \<Rightarrow> nat" where
  "example_idx s n = (case fst (snd s) of Excited \<Rightarrow> fst s | Ground \<Rightarrow> n + fst s)"

definition example_state_vector :: "state_specifier list \<Rightarrow> nat \<Rightarrow> cvec" where
  "example_state_vector specs n =
     map (\<lambda>i. sum_list (map (\<lambda>s. if example_idx s n = i
                                   then cis (pi * snd (snd s)) /
                                        complex_of_real (sqrt (real (length specs)))
                                   else 0) specs))
         [0..<2 * n]"

definition example_pm :: provider where
  "example_pm =
     \<lparr> motional_states_needed = (\<lambda>cols. 1),
       build_state_vector = example_state_vector,
       op_matrix = example_op,
       d_op_matrix = (\<lambda>c n angle. np_identity (2 * n)),
       inner_product = braket,
       idx = example_idx \<rparr>"

definition example_mem :: uninit where
  "example_mem = \<lparr> junk_c = (\<lambda>b k. 0), junk_r = (\<lambda>b k. 0) \<rparr>"

text \<open>
  Two instances: a carrier pulse followed in the list by a red sideband pulse, with the
  one-component target \<open>[(0, 'g', 0.0)]\<close>; and a single carrier pulse with a
  two-component target and free phases.
\<close>

definition example_ps :: pulse_sequence where
  "example_ps =
     new_instance example_pm example_mem [Carrier, Red] (Some [(0, Ground, 0)]) True
       [(0, Ground, 0)] 1"

definition example_free_ps :: pulse_sequence where
  "example_free_ps =
     new_instance example_pm example_mem [Carrier]
       (Some [(0, Ground, 0), (1, Ground, 0)]) False [(0, Ground, 0)] 2"

text \<open>An instance without a target, for \<open>U\<close> alone.\<close>

definition example_bare_ps :: pulse_sequence where
  "example_bare_ps = new_instance example_pm example_mem [Carrier] None False [(0, Ground, 0)] 1"

text \<open>The first instance again, constructed with \<open>fixed_phase=False\<close>.\<close>

definition example_single_ps :: pulse_sequence where
  "example_single_ps =
     new_instance example_pm example_mem [Carrier, Red] (Some [(0, Ground, 0)]) False
       [(0, Ground, 0)] 1"

section \<open>Frame properties\<close>

lemma and_then_Inr [simp]: "and_then (Inr x, s) f = f x s"
  by (simp add: and_then_def)

lemma and_then_Inl [simp]: "and_then (Inl e, s) f = (Inl e, s)"
  by (simp add: and_then_def)

lemma update_propagator_frame [simp]:
  "m_angles (update_propagator_and_derivatives pm ps) = m_angles ps"
  "m_len (update_propagator_and_derivatives pm ps) = m_len ps"
  "m_target (update_propagator_and_derivatives pm ps) = m_target ps"
  "target (update_propagator_and_derivatives pm ps) = target ps"
  "fixed_phase (update_propagator_and_derivatives pm ps) = fixed_phase ps"
  "m_dist (update_propagator_and_derivatives pm ps) = m_dist ps"
  "m_phases (update_propagator_and_derivatives pm ps) = m_phases ps"
  "m_lin_ops (update_propagator_and_derivatives pm ps) = m_lin_ops ps"
  by (simp_all add: update_propagator_and_derivatives_def Let_def)

lemma update_angles_frame [simp]:
  "fixed_phase (snd (update_angles_if_required ps angles)) = fixed_phase ps"
  "m_target (snd (update_angles_if_required ps angles)) = m_target ps"
  "m_len (snd (update_angles_if_required ps angles)) = m_len ps"
  "m_dist (snd (update_angles_if_required ps angles)) = m_dist ps"
  "m_phases (snd (update_angles_if_required ps angles)) = m_phases ps"
  "target (snd (update_angles_if_required ps angles)) = target ps"
  "m_new_target (snd (update_angles_if_required ps angles)) = m_new_target ps"
  by (simp_all add: update_angles_if_required_def split: option.splits)

lemma update_angles_same:
  "m_angles ps = Some a \<Longrightarrow> length a = m_len ps \<Longrightarrow>
   update_angles_if_required ps (Some a) = (Inr False, ps)"
  by (simp add: update_angles_if_required_def array_equal_def)

lemma update_angles_changed:
  "m_angles ps \<noteq> Some a \<Longrightarrow> length a = m_len ps \<Longrightarrow>
   update_angles_if_required ps (Some a) =
     (Inr True, ps\<lparr>m_angles := Some a, m_lin_ops := set_angles (m_lin_ops ps) a\<rparr>)"
  by (simp add: update_angles_if_required_def array_equal_def)

lemma update_phases_fixed:
  "fixed_phase ps \<Longrightarrow> update_phases_if_required pm ps phases = (Inr False, ps)"
  by (simp add: update_phases_if_required_def)

lemma init_Inr:
  assumes "init pm mem cols tgt fixed st = Inr ps"
  shows "\<exists>n. ps = new_instance pm mem cols tgt fixed (default_start st) n"
    and "cols \<noteq> []" and "tgt \<noteq> Some []"
  using assms
  by (auto simp: init_def truncation_size_def py_max_def
      split: if_splits sum.splits option.splits list.splits)

lemma new_instance_fields [simp]:
  "m_angles (new_instance pm mem cols tgt fixed st' n) = None"
  "m_phases (new_instance pm mem cols tgt fixed st' n) = None"
  "m_len (new_instance pm mem cols tgt fixed st' n) = length cols"
  "colours (new_instance pm mem cols tgt fixed st' n) = cols"
  "ns (new_instance pm mem cols tgt fixed st' n) = n"
  "target (new_instance pm mem cols tgt fixed st' n) = tgt"
  "m_dist (new_instance pm mem cols tgt fixed st' n) = map_option (\<lambda>_. PosInf) tgt"
  "m_target (new_instance pm mem cols tgt fixed st' n)
     = map_option (\<lambda>t. build_state_vector pm t n) tgt"
  "fixed_phase (new_instance pm mem cols tgt fixed st' n)
     = (fixed \<or> map_option (\<lambda>t. int (length t) - 1) tgt = Some 0)"
  "m_n_phases (new_instance pm mem cols tgt fixed st' n)
     = map_option (\<lambda>t. int (length t) - 1) tgt"
  "m_new_target (new_instance pm mem cols tgt fixed st' n)
     = map_option (map (\<lambda>_. (0, Ground, 0))) tgt"
  by (simp_all add: new_instance_def)

section \<open>Construction\<close>

lemma truncation_size_error:
  "truncation_size pm cols st' tgt = Inl e \<Longrightarrow> e = ValueError"
  by (auto simp: truncation_size_def py_max_def split: sum.splits option.splits list.splits)

text \<open>C8: construction fails on an empty colour sequence, and only then on that ground.\<close>

theorem init_empty_colours_iff:
  "(init pm mem cols tgt fixed st = Inl (AssertionError NoColours)) = (cols = [])"
  by (auto simp: init_def split: sum.splits dest: truncation_size_error)

section \<open>Memoisation\<close>

text \<open>
  C4: a second call of \<open>U\<close> with the same angles returns the same matrix and leaves the
  instance as the first call left it (propagator, derivatives and operator angles
  included); for an angle vector of the right length it finds nothing to update.
\<close>

theorem U_twice:
  "U pm (snd (U pm ps angles)) angles = U pm ps angles \<and>
   (length a = m_len ps \<longrightarrow>
      fst (update_angles_if_required (snd (U pm ps (Some a))) (Some a)) = Inr False)"
  by (cases angles)
     (simp_all add: U_def calculate_propagator_def update_angles_if_required_def
        array_equal_def)

section \<open>Fixed-phase mode\<close>

lemma calculate_all_fixed:
  assumes "fixed_phase ps"
  shows "calculate_all pm ps angles phases = calculate_all pm ps angles None"
proof -
  obtain r ps1 where r: "update_angles_if_required ps angles = (r, ps1)"
    by (cases "update_angles_if_required ps angles")
  have "fixed_phase ps1"
    using update_angles_frame(1) [of ps angles] assms by (simp add: r)
  then show ?thesis
    using assms by (cases r) (simp_all add: calculate_all_def r update_phases_fixed)
qed

text \<open>
  C5: in fixed-phase mode \<open>distance\<close> does the same whatever the phase argument is:
  the value returned and the instance left behind agree.
\<close>

theorem distance_ignores_phases_when_fixed:
  "fixed_phase ps \<Longrightarrow> distance pm ps angles p1 = distance pm ps angles p2"
  using calculate_all_fixed [of ps pm angles p1] calculate_all_fixed [of ps pm angles p2]
  by (simp add: distance_def)

lemma U_changed:
  "m_angles ps \<noteq> Some a \<Longrightarrow> length a = m_len ps \<Longrightarrow>
   U pm ps (Some a) =
     (Inr (m_u (update_propagator_and_derivatives pm
                  (ps\<lparr>m_angles := Some a, m_lin_ops := set_angles (m_lin_ops ps) a\<rparr>))),
      update_propagator_and_derivatives pm
        (ps\<lparr>m_angles := Some a, m_lin_ops := set_angles (m_lin_ops ps) a\<rparr>))"
  by (simp add: U_def calculate_propagator_def update_angles_changed)

text \<open>
  C3: on a fresh fixed-phase instance with a target, \<open>U(a)\<close> succeeds, and
  \<open>distance(a)\<close> called next finds neither angles nor phases changed, computes nothing
  and returns the value \<open>float("inf")\<close> the constructor stored.
\<close>

theorem distance_after_U_is_sentinel:
  assumes "init pm mem cols (Some tg) fixed st = Inr ps0"
    and "fixed_phase ps0"
    and "length a = length cols"
  shows "(\<exists>u. fst (U pm ps0 (Some a)) = Inr u) \<and>
         distance pm (snd (U pm ps0 (Some a))) (Some a) phases
           = (Inr PosInf, snd (U pm ps0 (Some a)))"
proof -
  define ps1 where "ps1 = update_propagator_and_derivatives pm
        (ps0\<lparr>m_angles := Some a, m_lin_ops := set_angles (m_lin_ops ps0) a\<rparr>)"
  obtain n where ps0: "ps0 = new_instance pm mem cols (Some tg) fixed (default_start st) n"
    using init_Inr(1) [OF assms(1)] by blast
  have len: "length a = m_len ps0" and fresh: "m_angles ps0 \<noteq> Some a"
    using assms(3) by (simp_all add: ps0)
  have U: "U pm ps0 (Some a) = (Inr (m_u ps1), ps1)"
    using U_changed [OF fresh len, of pm] by (simp add: ps1_def)
  have a1: "m_angles ps1 = Some a" "m_len ps1 = m_len ps0" "fixed_phase ps1"
    "m_dist ps1 = Some PosInf" "m_target ps1 \<noteq> None"
    using assms(2) by (simp_all add: ps1_def) (simp_all add: ps0)
  have "update_angles_if_required ps1 (Some a) = (Inr False, ps1)"
    using update_angles_same [of ps1 a] a1 len by simp
  then have "calculate_all pm ps1 (Some a) phases = (Inr (), ps1)"
    using a1 by (simp add: calculate_all_def update_phases_fixed)
  then have "distance pm ps1 (Some a) phases = (Inr PosInf, ps1)"
    using a1 by (simp add: distance_def)
  then show ?thesis by (simp add: U)
qed

section \<open>The propagator\<close>

lemma partials_fold_length:
  "length (fst (foldl (partials_step pm ops) p [0..<k])) = length (fst p) \<and>
   length (snd (foldl (partials_step pm ops) p [0..<k])) = length (snd p)"
  by (induction k) (simp_all add: partials_step_def)

lemma partials_fold_ltr:
  assumes "k < length (fst p)" "k < length ops"
  shows "j \<le> k \<Longrightarrow>
         fst (foldl (partials_step pm ops) p [0..<k]) ! j
           = foldl dot_mm (fst p ! 0) (map (op pm) (take j ops))"
  using assms
proof (induction k arbitrary: j)
  case 0
  then show ?case by simp
next
  case (Suc k)
  define q where "q = foldl (partials_step pm ops) p [0..<k]"
  have len: "length (fst q) = length (fst p)"
    using partials_fold_length [of pm ops p k] by (simp add: q_def)
  have step: "fst (foldl (partials_step pm ops) p [0..<Suc k])
                = (fst q)[Suc k := dot_mm (fst q ! k) (op pm (ops ! k))]"
    by (simp add: partials_step_def q_def)
  show ?case
  proof (cases "j = Suc k")
    case True
    have "fst q ! k = foldl dot_mm (fst p ! 0) (map (op pm) (take k ops))"
      using Suc.IH [of k] Suc.prems by (simp add: q_def)
    then show ?thesis
      unfolding step using True Suc.prems len by (simp add: take_Suc_conv_app_nth)
  next
    case False
    then have "j \<le> k" using Suc.prems by simp
    then have "fst q ! j = foldl dot_mm (fst p ! 0) (map (op pm) (take j ops))"
      using Suc.IH [of j] Suc.prems by (simp add: q_def)
    then show ?thesis
      unfolding step using False by simp
  qed
qed

lemma propagator_is_product:
  assumes "well_formed ps"
  shows "m_u (update_propagator_and_derivatives pm ps)
           = matrix_product (2 * ns ps) (map (op pm) (m_lin_ops ps))"
proof -
  define ops where "ops = m_lin_ops ps"
  define l where "l = m_len ps - 1"
  define q where "q = foldl (partials_step pm ops) (m_partials_ltr ps, m_partials_rtl ps) [0..<l]"
  have wf: "Suc l = m_len ps" "length ops = Suc l" "length (m_partials_ltr ps) = Suc l"
    "m_partials_ltr ps ! 0 = np_identity (2 * ns ps)"
    using assms length_map [of co_colour "m_lin_ops ps"]
    by (simp_all add: well_formed_def ops_def l_def)
  have len: "length (fst q) = Suc l"
    using partials_fold_length [of pm ops "(m_partials_ltr ps, m_partials_rtl ps)" l] wf
    by (simp add: q_def)
  have last: "fst q ! l = foldl dot_mm (np_identity (2 * ns ps)) (map (op pm) (take l ops))"
    using partials_fold_ltr [of l "(m_partials_ltr ps, m_partials_rtl ps)" ops l pm] wf
    by (simp add: q_def)
  have split: "ops = take l ops @ [ops ! l]"
    using wf take_Suc_conv_app_nth [of l ops] by simp
  have "foldl dot_mm (np_identity (2 * ns ps)) (map (op pm) (take l ops @ [ops ! l]))
          = dot_mm (fst q ! l) (op pm (ops ! l))"
    by (simp add: last)
  then have prod: "dot_mm (fst q ! l) (op pm (ops ! l))
          = foldl dot_mm (np_identity (2 * ns ps)) (map (op pm) ops)"
    using split by simp
  have "m_u (update_propagator_and_derivatives pm ps)
          = dot_mm (fst q ! l) (op pm (ops ! l))"
    using wf len
    by (simp add: update_propagator_and_derivatives_def Let_def nth_neg_def q_def ops_def l_def)
  then have "m_u (update_propagator_and_derivatives pm ps)
          = foldl dot_mm (np_identity (2 * ns ps)) (map (op pm) ops)"
    using prod by simp
  then show ?thesis
    by (simp add: matrix_product_def ops_def)
qed

lemma set_angles_eq:
  "length a = length ops \<Longrightarrow>
   set_angles ops a = map2 (\<lambda>c x. c\<lparr>co_angle := Some x\<rparr>) ops a"
proof -
  have "k \<le> length a \<Longrightarrow> length a = length ops \<Longrightarrow>
        foldl (\<lambda>os i. os[i := (os ! i)\<lparr>co_angle := Some (a ! i)\<rparr>]) ops [0..<k]
          = map2 (\<lambda>c x. c\<lparr>co_angle := Some x\<rparr>) (take k ops) (take k a) @ drop k ops" for k
  proof (induction k)
    case 0
    then show ?case by simp
  next
    case (Suc k)
    then show ?case
      by (simp add: take_Suc_conv_app_nth list_update_append nth_append
          upd_conv_take_nth_drop Cons_nth_drop_Suc [symmetric])
  qed
  from this [of "length a"] show "length a = length ops \<Longrightarrow> ?thesis"
    by (simp add: set_angles_def)
qed

section \<open>Evaluating the example\<close>

lemma upt_0_2: "[0..<2] = [0, 1]"
  by (simp add: numeral_2_eq_2)

lemma example_init:
  "init example_pm example_mem [Carrier, Red] (Some [(0, Ground, 0)]) True None = Inr example_ps"
  by (simp add: init_def truncation_size_def py_max_def motional_def default_start_def
      example_pm_def example_ps_def)

lemma example_free_init:
  "init example_pm example_mem [Carrier] (Some [(0, Ground, 0), (1, Ground, 0)]) False None
     = Inr example_free_ps"
  by (simp add: init_def truncation_size_def py_max_def motional_def default_start_def
      example_pm_def example_free_ps_def del: One_nat_def)

lemma example_carrier:
  "example_op Carrier 1 (Some 1) = [[0, Complex 0 (- 1)], [Complex 0 (- 1), 0]]"
  by (simp add: example_op_def rot_cos_def rot_sin_def upt_0_2 complex_eq_iff)

lemma example_red: "example_op Red 1 (Some 1) = [[1, 0], [0, Complex 0 1]]"
  by (simp add: example_op_def rot_cos_def rot_sin_def upt_0_2 complex_eq_iff)

lemma np_identity_2: "np_identity 2 = [[1, 0], [0, 1]]"
  by (simp add: np_identity_def upt_0_2)

lemma dot_mm_2: "dot_mm [[a, b], [c, d]] [[e, f], [g, h]]
   = [[a * e + b * g, a * f + b * h], [c * e + d * g, c * f + d * h]]"
  by (simp add: dot_mm_def ncols_def upt_0_2)

lemma example_product:
  "matrix_product 2 (pulse_matrices example_pm [Carrier, Red] 1 [1, 1])
     = [[0, 1], [Complex 0 (- 1), 0]]"
  by (simp add: matrix_product_def pulse_matrices_def example_pm_def example_carrier
      example_red np_identity_2 dot_mm_2 complex_eq_iff del: One_nat_def)

lemma example_product_rev:
  "matrix_product 2 (rev (pulse_matrices example_pm [Carrier, Red] 1 [1, 1]))
     = [[0, Complex 0 (- 1)], [1, 0]]"
  by (simp add: matrix_product_def pulse_matrices_def example_pm_def example_carrier
      example_red np_identity_2 dot_mm_2 complex_eq_iff del: One_nat_def)

section \<open>Well-formed instances\<close>

lemma length_np_empty_mats [simp]: "length (np_empty_mats g l d) = l"
  by (simp add: np_empty_mats_def)

lemma new_instance_well_formed:
  "cols \<noteq> [] \<Longrightarrow> well_formed (new_instance pm mem cols tgt fixed st' n)"
  by (simp add: well_formed_def new_instance_def map_replicate_const comp_def)

lemma init_well_formed:
  "init pm mem cols tgt fixed st = Inr ps \<Longrightarrow> well_formed ps"
  using init_Inr(1,2) [of pm mem cols tgt fixed st ps] new_instance_well_formed by blast

lemma set_angles_maps:
  assumes "length a = length ops"
  shows "map co_colour (set_angles ops a) = map co_colour ops"
    and "map co_ns (set_angles ops a) = map co_ns ops"
    and "length (set_angles ops a) = length ops"
proof -
  have "length ops = length a \<Longrightarrow>
        map co_colour (map2 (\<lambda>c x. c\<lparr>co_angle := Some x\<rparr>) ops a) = map co_colour ops \<and>
        map co_ns (map2 (\<lambda>c x. c\<lparr>co_angle := Some x\<rparr>) ops a) = map co_ns ops"
    by (induction ops a rule: list_induct2) simp_all
  then show "map co_colour (set_angles ops a) = map co_colour ops"
    and "map co_ns (set_angles ops a) = map co_ns ops"
    and "length (set_angles ops a) = length ops"
    using assms by (simp_all add: set_angles_eq)
qed

lemma set_angles_matrices:
  assumes "length a = length ops" "map co_ns ops = replicate (length ops) n"
  shows "map (op pm) (set_angles ops a) = pulse_matrices pm (map co_colour ops) n a"
proof -
  have "length ops = length a \<Longrightarrow> map co_ns ops = replicate (length ops) n \<Longrightarrow>
        map (op pm) (map2 (\<lambda>c x. c\<lparr>co_angle := Some x\<rparr>) ops a)
          = map2 (\<lambda>c x. op_matrix pm c n (Some x)) (map co_colour ops) a"
    by (induction ops a rule: list_induct2) (simp_all add: op_def)
  then show ?thesis
    using assms by (simp add: set_angles_eq pulse_matrices_def)
qed

lemma update_angles_well_formed:
  assumes "well_formed ps" "length a = m_len ps"
  shows "well_formed (ps\<lparr>m_angles := Some a, m_lin_ops := set_angles (m_lin_ops ps) a\<rparr>)"
proof -
  have "length (m_lin_ops ps) = m_len ps"
    using assms(1) length_map [of co_colour "m_lin_ops ps"] by (simp add: well_formed_def)
  then show ?thesis
    using assms by (simp add: well_formed_def set_angles_maps)
qed

text \<open>
  C1, as the code has it: a call of \<open>U\<close> that recomputes returns
  \<open>I \<cdot> Op[0] \<cdot> Op[1] \<cdot> \<dots> \<cdot> Op[L-1]\<close>, the operators at the given angles. The first
  pulse of the list is the leftmost factor, so it acts last on a state.
\<close>

theorem U_is_product_in_list_order:
  assumes "well_formed ps" and "length a = m_len ps" and "m_angles ps \<noteq> Some a"
  shows "fst (U pm ps (Some a))
           = Inr (matrix_product (2 * ns ps) (pulse_matrices pm (colours ps) (ns ps) a))"
proof -
  define ps' where "ps' = ps\<lparr>m_angles := Some a, m_lin_ops := set_angles (m_lin_ops ps) a\<rparr>"
  have wf: "well_formed ps'"
    using update_angles_well_formed [OF assms(1,2)] by (simp add: ps'_def)
  have ops: "length (m_lin_ops ps) = m_len ps" "map co_colour (m_lin_ops ps) = colours ps"
    "map co_ns (m_lin_ops ps) = replicate (m_len ps) (ns ps)"
    using assms(1) length_map [of co_colour "m_lin_ops ps"] by (simp_all add: well_formed_def)
  have "map (op pm) (m_lin_ops ps') = pulse_matrices pm (colours ps) (ns ps) a"
    using set_angles_matrices [of a "m_lin_ops ps" "ns ps" pm] ops assms(2)
    by (simp add: ps'_def)
  moreover have "ns ps' = ns ps" by (simp add: ps'_def)
  ultimately have "m_u (update_propagator_and_derivatives pm ps')
      = matrix_product (2 * ns ps) (pulse_matrices pm (colours ps) (ns ps) a)"
    using propagator_is_product [OF wf, of pm] by simp
  then show ?thesis
    using U_changed [OF assms(3,2), of pm] by (simp add: ps'_def)
qed

lemma example_ps_facts:
  "well_formed example_ps" "m_len example_ps = 2" "m_angles example_ps = None"
  "ns example_ps = 1" "colours example_ps = [Carrier, Red]" "fixed_phase example_ps"
  "m_target example_ps \<noteq> None" "m_dist example_ps = Some PosInf"
  by (simp_all add: example_ps_def new_instance_well_formed)

theorem U_is_product_in_list_order_witness:
  "well_formed example_ps \<and> length [1, 1 :: real] = m_len example_ps \<and>
   m_angles example_ps \<noteq> Some [1, 1] \<and>
   fst (U example_pm example_ps (Some [1, 1])) = Inr [[0, 1], [Complex 0 (- 1), 0]]"
  using U_is_product_in_list_order [of example_ps "[1, 1]" example_pm]
  by (simp add: example_ps_facts example_product del: One_nat_def)

text \<open>
  C1 as stated fails: for a carrier pulse listed before a red sideband pulse, \<open>U\<close> is
  not the product with the first pulse as the rightmost factor.
\<close>

theorem U_is_not_product_in_reverse_order:
  "fst (U example_pm example_ps (Some [1, 1]))
     \<noteq> Inr (matrix_product (2 * ns example_ps)
              (rev (pulse_matrices example_pm (colours example_ps) (ns example_ps) [1, 1])))"
proof -
  have "fst (U example_pm example_ps (Some [1, 1]))
          = Inr (matrix_product 2 (pulse_matrices example_pm [Carrier, Red] 1 [1, 1]))"
    using U_changed [of example_ps "[1, 1]" example_pm]
      propagator_is_product [of "example_ps\<lparr>m_angles := Some [1, 1],
          m_lin_ops := set_angles (m_lin_ops example_ps) [1, 1]\<rparr>" example_pm]
      update_angles_well_formed [of example_ps "[1, 1]"]
      set_angles_matrices [of "[1, 1]" "m_lin_ops example_ps" 1 example_pm]
    by (simp add: example_ps_facts del: One_nat_def)
       (simp add: example_ps_def new_instance_def del: One_nat_def)
  then show ?thesis
    by (simp add: example_ps_facts example_product example_product_rev complex_eq_iff
        del: One_nat_def)
qed

section \<open>Which errors a call can raise\<close>

lemma update_angles_errors:
  "fst (update_angles_if_required ps angles) = Inl e \<Longrightarrow>
   \<exists>a. angles = Some a \<and> length a \<noteq> m_len ps \<and> e = AssertionError (AnglesLength (m_len ps) (length a))"
  by (auto simp: update_angles_if_required_def split: option.splits if_splits)

lemma set_phases_loop_errors:
  "set_phases_loop els i phs nt = (Some e, nt') \<Longrightarrow> e = IndexError \<or> e = TypeError"
  by (induction els i phs nt rule: set_phases_loop.induct)
     (auto split: if_splits option.splits)

lemma update_target_phases_errors:
  "fst (update_target_phases pm ps) = Inl e \<Longrightarrow>
   e = IndexError \<or> e = TypeError \<or> e = AttributeError"
  by (auto simp: update_target_phases_def
      split: option.splits list.splits prod.splits
      dest: set_phases_loop_errors)

lemma update_phases_errors:
  assumes "fst (update_phases_if_required pm ps phases) = Inl e"
  shows "e = IndexError \<or> e = TypeError \<or> e = AttributeError \<or> e = ValueError \<or>
         (\<exists>k n. e = AssertionError (PhasesLength k n))"
proof -
  have *: "fst (and_then (update_target_phases pm s) (\<lambda>_ ps'. (Inr True, ps'))) = Inl e
           \<Longrightarrow> e = IndexError \<or> e = TypeError \<or> e = AttributeError" for s
    using update_target_phases_errors [of pm s e]
    by (cases "update_target_phases pm s") (auto simp: and_then_def split: sum.splits)
  show ?thesis
    using assms *
    by (auto simp: update_phases_if_required_def Let_def split: if_splits option.splits)
qed

lemma phase_derivatives_loop_errors:
  "phase_derivatives_loop f i ph arr = (Some e, arr') \<Longrightarrow>
   e = IndexError \<or> (\<exists>j x. f j x = Inl e)"
  by (induction f i ph arr rule: phase_derivatives_loop.induct)
     (auto split: sum.splits if_splits)

lemma phase_derivative_errors:
  "phase_derivative pm ps tg i x = Inl e \<Longrightarrow> e = IndexError"
  by (auto simp: phase_derivative_def Let_def split: if_splits)

lemma update_distance_phase_derivatives_errors:
  assumes "fst (update_distance_phase_derivatives pm ps) = Inl e"
  shows "e = IndexError \<or> e = TypeError \<or> e = ZeroDivisionError \<or> e = AttributeError"
  using assms
  by (auto simp: update_distance_phase_derivatives_def
      split: option.splits list.splits prod.splits sum.splits
      dest: phase_derivative_errors dest!: phase_derivatives_loop_errors)

lemma calculate_all_errors:
  assumes "m_target ps = None \<or> fixed_phase ps \<or> phases \<noteq> None"
    and "fst (calculate_all pm ps angles phases) = Inl e"
  shows "\<not> usage_error e"
proof -
  obtain r1 ps1 where r1: "update_angles_if_required ps angles = (r1, ps1)"
    by (cases "update_angles_if_required ps angles")
  show ?thesis
  proof (cases r1)
    case (Inl e1)
    then have "e = e1" using assms by (simp add: calculate_all_def r1)
    then show ?thesis
      using update_angles_errors [of ps angles e1] Inl r1 by (auto simp: usage_error_def)
  next
    case (Inr ua)
    obtain r2 ps2 where r2: "update_phases_if_required pm ps1 phases = (r2, ps2)"
      by (cases "update_phases_if_required pm ps1 phases")
    show ?thesis
    proof (cases r2)
      case (Inl e2)
      then have "e = e2" using assms Inr by (simp add: calculate_all_def r1 r2)
      then show ?thesis
        using update_phases_errors [of pm ps1 phases e2] Inl r2 by (auto simp: usage_error_def)
    next
      case up: (Inr up)
      have "\<exists>s. fst (update_distance_phase_derivatives pm s) = Inl e"
        using assms Inr up
        by (auto simp: calculate_all_def r1 r2 Let_def split: if_splits option.splits)
      then show ?thesis
        using update_distance_phase_derivatives_errors by (auto simp: usage_error_def)
    qed
  qed
qed

section \<open>Precondition failures of \<open>distance\<close>\<close>

text \<open>
  C6: \<open>distance\<close> fails with the target assertion when no target is configured, and
  with the phases assertion when a target is configured, the instance is not in
  fixed-phase mode and \<open>phases\<close> is omitted; both failures leave the instance as it
  was. With a target, and with phases given unless in fixed-phase mode, it raises
  neither of the two.
\<close>

theorem distance_usage_errors:
  "(m_target ps = None \<longrightarrow>
      distance pm ps angles phases = (Inl (AssertionError TargetNeeded), ps)) \<and>
   (m_target ps \<noteq> None \<and> \<not> fixed_phase ps \<longrightarrow>
      distance pm ps angles None = (Inl (AssertionError PhasesNeeded), ps)) \<and>
   (m_target ps \<noteq> None \<and> (fixed_phase ps \<or> phases \<noteq> None) \<longrightarrow>
      fst (distance pm ps angles phases) \<noteq> Inl (AssertionError TargetNeeded) \<and>
      fst (distance pm ps angles phases) \<noteq> Inl (AssertionError PhasesNeeded))"
proof (intro conjI impI)
  assume "m_target ps = None"
  then show "distance pm ps angles phases = (Inl (AssertionError TargetNeeded), ps)"
    by (simp add: distance_def)
next
  assume "m_target ps \<noteq> None \<and> \<not> fixed_phase ps"
  then show "distance pm ps angles None = (Inl (AssertionError PhasesNeeded), ps)"
    by (simp add: distance_def calculate_all_def)
next
  assume pre: "m_target ps \<noteq> None \<and> (fixed_phase ps \<or> phases \<noteq> None)"
  obtain r ps' where r: "calculate_all pm ps angles phases = (r, ps')"
    by (cases "calculate_all pm ps angles phases")
  have "\<not> usage_error e" if err: "fst (distance pm ps angles phases) = Inl e" for e
  proof (cases r)
    case (Inl e')
    then have "e = e'" using err pre by (simp add: distance_def r)
    then show ?thesis
      using calculate_all_errors [of ps phases pm angles e'] pre Inl r by auto
  next
    case (Inr u)
    then have "e = AttributeError"
      using err pre by (simp add: distance_def r split: option.splits)
    then show ?thesis by (simp add: usage_error_def)
  qed
  then show "fst (distance pm ps angles phases) \<noteq> Inl (AssertionError TargetNeeded)"
    and "fst (distance pm ps angles phases) \<noteq> Inl (AssertionError PhasesNeeded)"
    by (auto simp: usage_error_def)
qed

lemma example_free_ps_facts:
  "well_formed example_free_ps" "m_len example_free_ps = 1" "m_angles example_free_ps = None"
  "m_phases example_free_ps = None"
  "ns example_free_ps = 2" "colours example_free_ps = [Carrier]" "\<not> fixed_phase example_free_ps"
  "m_target example_free_ps \<noteq> None" "m_dist example_free_ps = Some PosInf"
  "target example_free_ps = Some [(0, Ground, 0), (1, Ground, 0)]"
  "m_n_phases example_free_ps = Some 1"
  "m_new_target example_free_ps = Some [(0, Ground, 0), (0, Ground, 0)]"
  by (simp_all add: example_free_ps_def new_instance_well_formed)

lemma example_bare_ps_facts:
  "well_formed example_bare_ps" "m_len example_bare_ps = 1" "m_angles example_bare_ps = None"
  "m_target example_bare_ps = None" "\<not> fixed_phase example_bare_ps"
  "m_n_phases example_bare_ps = None"
  by (simp_all add: example_bare_ps_def new_instance_well_formed)

theorem distance_usage_errors_witness:
  "m_target example_bare_ps = None \<and>
   distance example_pm example_bare_ps (Some [1]) (Some [0])
     = (Inl (AssertionError TargetNeeded), example_bare_ps) \<and>
   m_target example_free_ps \<noteq> None \<and> \<not> fixed_phase example_free_ps \<and>
   distance example_pm example_free_ps (Some [1]) None
     = (Inl (AssertionError PhasesNeeded), example_free_ps) \<and>
   m_target example_ps \<noteq> None \<and> fixed_phase example_ps \<and>
   fst (distance example_pm example_ps (Some [1, 1]) None) \<noteq> Inl (AssertionError TargetNeeded) \<and>
   fst (distance example_pm example_ps (Some [1, 1]) None) \<noteq> Inl (AssertionError PhasesNeeded)"
  using distance_usage_errors [of example_bare_ps example_pm "Some [1]" "Some [0]"]
    distance_usage_errors [of example_free_ps example_pm "Some [1]" None]
    distance_usage_errors [of example_ps example_pm "Some [1, 1]" None]
  by (simp add: example_free_ps_facts example_ps_facts example_bare_ps_facts)

section \<open>Witnesses for the memoisation and fixed-phase properties\<close>

theorem U_twice_witness:
  "U example_pm (snd (U example_pm example_ps (Some [1, 1]))) (Some [1, 1])
     = U example_pm example_ps (Some [1, 1]) \<and>
   length [1, 1 :: real] = m_len example_ps \<and>
   fst (update_angles_if_required (snd (U example_pm example_ps (Some [1, 1]))) (Some [1, 1]))
     = Inr False"
  using U_twice [of example_pm example_ps "Some [1, 1]" "[1, 1]"]
  by (simp add: example_ps_facts)

theorem distance_ignores_phases_when_fixed_witness:
  "fixed_phase example_ps \<and>
   distance example_pm example_ps (Some [1, 1]) None
     = distance example_pm example_ps (Some [1, 1]) (Some [1 / 2, 1 / 3])"
  using distance_ignores_phases_when_fixed [of example_ps example_pm "Some [1, 1]" None
      "Some [1 / 2, 1 / 3]"]
  by (simp add: example_ps_facts)

theorem distance_after_U_is_sentinel_witness:
  "init example_pm example_mem [Carrier, Red] (Some [(0, Ground, 0)]) True None = Inr example_ps \<and>
   fixed_phase example_ps \<and> length [1, 1 :: real] = length [Carrier, Red] \<and>
   (\<exists>u. fst (U example_pm example_ps (Some [1, 1])) = Inr u) \<and>
   distance example_pm (snd (U example_pm example_ps (Some [1, 1]))) (Some [1, 1]) None
     = (Inr PosInf, snd (U example_pm example_ps (Some [1, 1])))"
  using distance_after_U_is_sentinel [OF example_init, of "[1, 1]" None]
  by (simp add: example_ps_facts example_init)

section \<open>Updating the phases\<close>

lemma set_phases_loop_ok:
  "length ph = i + length els \<Longrightarrow> length nt = Suc i + length els \<Longrightarrow>
   set_phases_loop els i (Some ph) nt
     = (None, take (Suc i) nt @ map2 set_phase els (drop i ph))"
proof (induction els arbitrary: i nt)
  case Nil
  then show ?case by simp
next
  case (Cons el els)
  define v where "v = set_phase el (ph ! i)"
  have i: "i < length ph" "Suc i < length nt" using Cons.prems by simp_all
  have "set_phases_loop els (Suc i) (Some ph) (nt[Suc i := v])
          = (None, take (Suc (Suc i)) (nt[Suc i := v]) @ map2 set_phase els (drop (Suc i) ph))"
    using Cons.IH [of "Suc i" "nt[Suc i := v]"] Cons.prems by simp
  moreover have "take (Suc (Suc i)) (nt[Suc i := v]) = take (Suc i) nt @ [v]"
    using i by (simp add: take_Suc_conv_app_nth [of "Suc i"])
  moreover have "drop i ph = ph ! i # drop (Suc i) ph"
    using i by (simp add: Cons_nth_drop_Suc)
  ultimately show ?case
    using i by (simp add: v_def)
qed

lemma update_target_phases_ok:
  assumes "target ps = Some tg" "m_new_target ps = Some nt" "m_phases ps = Some ph"
    and "length nt = length tg" "length ph + 1 = length tg"
  shows "update_target_phases pm ps =
           (Inr (), ps\<lparr>m_new_target := Some (pinned_target tg ph),
                        m_target := Some (build_state_vector pm (pinned_target tg ph) (ns ps))\<rparr>)"
proof -
  obtain t0 rest where tg: "tg = t0 # rest" using assms(5) by (cases tg) simp_all
  obtain n0 ns0 where nt: "nt = n0 # ns0" using assms(4) tg by (cases nt) simp_all
  have "set_phases_loop rest 0 (Some ph) (set_phase t0 0 # ns0)
          = (None, take (Suc 0) (set_phase t0 0 # ns0) @ map2 set_phase rest (drop 0 ph))"
    using set_phases_loop_ok [of ph 0 rest "set_phase t0 0 # ns0"] assms(4,5) tg nt by simp
  then show ?thesis
    using assms(1,2,3) by (simp add: update_target_phases_def tg nt pinned_target_def)
qed

lemma length_stored_phases:
  "length p + 1 = k \<or> (length p = k \<and> 2 \<le> length p) \<Longrightarrow>
   length (stored_phases k p) + 1 = k"
  by (auto simp: stored_phases_def)

lemma update_phases_result:
  assumes "phases_ok ps" "m_target ps \<noteq> None" "\<not> fixed_phase ps" "target ps = Some tg"
    and "\<not> array_equal (m_phases ps) p"
  shows "update_phases_if_required pm ps (Some p) =
           (if length p + 1 = length tg \<or> (length p = length tg \<and> 2 \<le> length p)
            then (Inr True,
                  ps\<lparr>m_phases := Some (stored_phases (length tg) p),
                      m_new_target := Some (pinned_target tg (stored_phases (length tg) p)),
                      m_target := Some (build_state_vector pm
                                         (pinned_target tg (stored_phases (length tg) p)) (ns ps))\<rparr>)
            else if length p = length tg then (Inl ValueError, ps)
            else (Inl (AssertionError (PhasesLength (length tg) (length p))), ps))"
proof -
  obtain nt where nt: "m_new_target ps = Some nt" "length nt = length tg"
    using assms(1,4) by (auto simp: phases_ok_def)
  have upd: "update_target_phases pm (ps\<lparr>m_phases := Some ph\<rparr>) =
           (Inr (), ps\<lparr>m_phases := Some ph, m_new_target := Some (pinned_target tg ph),
                        m_target := Some (build_state_vector pm (pinned_target tg ph) (ns ps))\<rparr>)"
    if "length ph + 1 = length tg" for ph
    using update_target_phases_ok [of "ps\<lparr>m_phases := Some ph\<rparr>" tg nt ph pm] assms(4) nt that
    by simp
  consider (a) "length p + 1 = length tg"
    | (b) "length p = length tg" "2 \<le> length p"
    | (c) "length p = length tg" "length p < 2"
    | (d) "length p + 1 \<noteq> length tg" "length p \<noteq> length tg"
    by linarith
  then show ?thesis
  proof cases
    case a
    then have "int (length p) = int (length tg) - 1" by simp
    then show ?thesis
      using a assms(3,4,5) upd [of p]
      by (simp add: update_phases_if_required_def stored_phases_def)
  next
    case b
    then have sl: "slice_from p 1 = tl p" "tl p \<noteq> []"
      by (cases p; cases "tl p"; simp add: slice_from_def)+
    have "length (map (\<lambda>x. x - p ! 0) (tl p)) + 1 = length tg"
      using b by simp
    then show ?thesis
      using b assms(3,4,5) sl upd [of "map (\<lambda>x. x - p ! 0) (tl p)"]
      by (simp add: update_phases_if_required_def stored_phases_def)
  next
    case c
    then have sl: "slice_from p 1 = []"
      by (cases p; cases "tl p"; simp add: slice_from_def)
    show ?thesis
      using c assms(3,4,5) sl by (simp add: update_phases_if_required_def)
  next
    case d
    then have "\<not> (0 \<le> int (length tg) - int (length p) \<and> int (length tg) - int (length p) \<le> 1)"
      by linarith
    then show ?thesis
      using d assms(3,4,5) by (simp add: update_phases_if_required_def)
  qed
qed

section \<open>What every call preserves\<close>

lemma partials_fold_head:
  "fst (foldl (partials_step pm ops) p [0..<k]) ! 0 = fst p ! 0 \<and>
   snd (foldl (partials_step pm ops) p [0..<k]) ! 0 = snd p ! 0"
  by (induction k) (simp_all add: partials_step_def)

lemma invariant_refl: "well_formed ps \<Longrightarrow> phases_ok ps \<Longrightarrow> invariant ps ps"
  by (simp add: invariant_def)

lemma new_instance_phases_ok: "phases_ok (new_instance pm mem cols tgt fixed st' n)"
  by (cases tgt) (simp_all add: phases_ok_def)

lemma phases_ok_frame:
  assumes "m_target ps' = m_target ps" "target ps' = target ps"
    "m_new_target ps' = m_new_target ps" "m_phases ps' = m_phases ps"
  shows "phases_ok ps' = phases_ok ps"
  using assms by (simp add: phases_ok_def)

lemma update_propagator_invariant:
  assumes "invariant ps0 ps"
  shows "invariant ps0 (update_propagator_and_derivatives pm ps)"
proof -
  let ?p = "(m_partials_ltr ps, m_partials_rtl ps)"
  have "well_formed (update_propagator_and_derivatives pm ps)"
    using assms partials_fold_length [of pm "m_lin_ops ps" ?p "m_len ps - 1"]
      partials_fold_head [of pm "m_lin_ops ps" ?p "m_len ps - 1"]
    by (simp add: invariant_def well_formed_def update_propagator_and_derivatives_def Let_def)
  moreover have "phases_ok (update_propagator_and_derivatives pm ps) = phases_ok ps"
    by (rule phases_ok_frame) (simp_all add: update_propagator_and_derivatives_def Let_def)
  ultimately show ?thesis
    using assms
    by (simp add: invariant_def config_def)
       (simp add: update_propagator_and_derivatives_def Let_def)
qed

lemma update_angles_invariant:
  assumes "invariant ps0 ps"
  shows "invariant ps0 (snd (update_angles_if_required ps angles))"
proof (cases "\<exists>a. angles = Some a \<and> length a = m_len ps \<and> m_angles ps \<noteq> Some a")
  case True
  then obtain a where a: "angles = Some a" "length a = m_len ps" "m_angles ps \<noteq> Some a"
    by blast
  have "well_formed (ps\<lparr>m_angles := Some a, m_lin_ops := set_angles (m_lin_ops ps) a\<rparr>)"
    using update_angles_well_formed [of ps a] assms a by (simp add: invariant_def)
  moreover have "phases_ok (ps\<lparr>m_angles := Some a, m_lin_ops := set_angles (m_lin_ops ps) a\<rparr>)
                   = phases_ok ps"
    by (rule phases_ok_frame) simp_all
  ultimately show ?thesis
    using assms a by (simp add: update_angles_changed invariant_def config_def)
next
  case False
  then have "snd (update_angles_if_required ps angles) = ps"
    by (auto simp: update_angles_if_required_def array_equal_def split: option.splits)
  then show ?thesis using assms by simp
qed

lemma config_update [simp]:
  "config (ps\<lparr>m_phases := x1\<rparr>) = config ps"
  "config (ps\<lparr>m_new_target := x2\<rparr>) = config ps"
  "config (ps\<lparr>m_tus := x3\<rparr>) = config ps"
  "config (ps\<lparr>m_dist := x4\<rparr>) = config ps"
  "config (ps\<lparr>m_d_dist_angles := x5\<rparr>) = config ps"
  "config (ps\<lparr>m_d_dist_phases := x6\<rparr>) = config ps"
  "config (ps\<lparr>m_target := x7\<rparr>) = config ps"
  by (simp_all add: config_def)

lemma well_formed_update [simp]:
  "well_formed (ps\<lparr>m_phases := x1\<rparr>) = well_formed ps"
  "well_formed (ps\<lparr>m_new_target := x2\<rparr>) = well_formed ps"
  "well_formed (ps\<lparr>m_tus := x3\<rparr>) = well_formed ps"
  "well_formed (ps\<lparr>m_dist := x4\<rparr>) = well_formed ps"
  "well_formed (ps\<lparr>m_d_dist_angles := x5\<rparr>) = well_formed ps"
  "well_formed (ps\<lparr>m_d_dist_phases := x6\<rparr>) = well_formed ps"
  "well_formed (ps\<lparr>m_target := x7\<rparr>) = well_formed ps"
  by (simp_all add: well_formed_def)

lemma phases_ok_update [simp]:
  "phases_ok (ps\<lparr>m_tus := x3\<rparr>) = phases_ok ps"
  "phases_ok (ps\<lparr>m_dist := x4\<rparr>) = phases_ok ps"
  "phases_ok (ps\<lparr>m_d_dist_angles := x5\<rparr>) = phases_ok ps"
  "phases_ok (ps\<lparr>m_d_dist_phases := x6\<rparr>) = phases_ok ps"
  by (simp_all add: phases_ok_def)

lemma invariant_update [simp]:
  "invariant ps0 (ps\<lparr>m_tus := x3\<rparr>) = invariant ps0 ps"
  "invariant ps0 (ps\<lparr>m_dist := x4\<rparr>) = invariant ps0 ps"
  "invariant ps0 (ps\<lparr>m_d_dist_angles := x5\<rparr>) = invariant ps0 ps"
  "invariant ps0 (ps\<lparr>m_d_dist_phases := x6\<rparr>) = invariant ps0 ps"
  by (simp_all add: invariant_def)

lemma update_phases_invariant:
  assumes "invariant ps0 ps" "m_target ps \<noteq> None"
  shows "invariant ps0 (snd (update_phases_if_required pm ps phases)) \<and>
         m_target (snd (update_phases_if_required pm ps phases)) \<noteq> None"
proof (cases "snd (update_phases_if_required pm ps phases) = ps")
  case True
  then show ?thesis using assms by simp
next
  case False
  then obtain p tg where f: "phases = Some p" "target ps = Some tg" "\<not> fixed_phase ps"
    "\<not> array_equal (m_phases ps) p"
    by (auto simp: update_phases_if_required_def Let_def split: option.splits if_splits)
  have ok: "phases_ok ps" using assms(1) by (simp add: invariant_def)
  define ph where "ph = stored_phases (length tg) p"
  define ps' where "ps' = ps\<lparr>m_phases := Some ph, m_new_target := Some (pinned_target tg ph),
      m_target := Some (build_state_vector pm (pinned_target tg ph) (ns ps))\<rparr>"
  have res: "update_phases_if_required pm ps phases = (Inr True, ps')"
    and len: "length ph + 1 = length tg"
    using update_phases_result [OF ok assms(2) f(3,2,4), of pm] False
      length_stored_phases [of p "length tg"]
    by (auto simp: f ps'_def ph_def split: if_splits)
  have "phases_ok ps'"
    using ok f(2) len by (auto simp: phases_ok_def ps'_def pinned_target_def)
  then have "invariant ps0 ps'"
    using assms(1) by (simp add: invariant_def ps'_def)
  then show ?thesis
    by (simp add: res) (simp add: ps'_def)
qed

lemma update_distance_invariant:
  "invariant ps0 (update_distance pm t ps) = invariant ps0 ps"
  "m_target (update_distance pm t ps) = m_target ps"
  by (simp_all add: update_distance_def Let_def)

lemma update_distance_angle_derivatives_invariant:
  "invariant ps0 (update_distance_angle_derivatives pm t ps) = invariant ps0 ps"
  "m_target (update_distance_angle_derivatives pm t ps) = m_target ps"
  by (simp_all add: update_distance_angle_derivatives_def)

lemma update_distance_phase_derivatives_invariant:
  "invariant ps0 ps \<Longrightarrow> invariant ps0 (snd (update_distance_phase_derivatives pm ps))"
  by (auto simp: update_distance_phase_derivatives_def
      split: option.splits list.splits prod.splits sum.splits)

lemma calculate_all_invariant:
  assumes "invariant ps0 ps" "m_target ps \<noteq> None"
  shows "invariant ps0 (snd (calculate_all pm ps angles phases))"
proof (cases "m_target ps = None \<or> fixed_phase ps \<or> phases \<noteq> None")
  case False
  then show ?thesis using assms by (simp add: calculate_all_def)
next
  case pre: True
  obtain r1 ps1 where r1: "update_angles_if_required ps angles = (r1, ps1)"
    by (cases "update_angles_if_required ps angles")
  have i1: "invariant ps0 ps1" "m_target ps1 \<noteq> None"
    using update_angles_invariant [OF assms(1), of angles]
      update_angles_frame(2) [of ps angles] assms(2) by (simp_all add: r1)
  obtain r2 ps2 where r2: "update_phases_if_required pm ps1 phases = (r2, ps2)"
    by (cases "update_phases_if_required pm ps1 phases")
  have i2: "invariant ps0 ps2" "m_target ps2 \<noteq> None"
    using update_phases_invariant [OF i1, of pm phases] by (simp_all add: r2)
  define ps3 where "ps3 = update_propagator_and_derivatives pm ps2"
  have i3: "invariant ps0 ps3" "m_target ps3 = m_target ps2"
    using update_propagator_invariant [OF i2(1), of pm] by (simp_all add: ps3_def)
  show ?thesis
  proof (cases r1)
    case (Inl e)
    then show ?thesis using pre i1 by (simp add: calculate_all_def r1)
  next
    case ua: (Inr ua)
    show ?thesis
    proof (cases r2)
      case (Inl e)
      then show ?thesis using pre ua i2 by (simp add: calculate_all_def r1 r2)
    next
      case up: (Inr up)
      obtain t where t: "m_target ps2 = Some t" using i2(2) by auto
      show ?thesis
        using pre ua up i2 i3 t
        by (simp add: calculate_all_def r1 r2 Let_def ps3_def [symmetric]
            update_distance_invariant update_distance_angle_derivatives_invariant
            update_distance_phase_derivatives_invariant)
    qed
  qed
qed

lemma calculate_propagator_invariant:
  assumes "invariant ps0 ps"
  shows "invariant ps0 (snd (calculate_propagator pm ps angles))"
proof -
  obtain r1 ps1 where r1: "update_angles_if_required ps angles = (r1, ps1)"
    by (cases "update_angles_if_required ps angles")
  have "invariant ps0 ps1"
    using update_angles_invariant [OF assms, of angles] by (simp add: r1)
  then show ?thesis
    by (cases r1) (simp_all add: calculate_propagator_def r1 update_propagator_invariant)
qed

lemma and_then_snd:
  "snd (and_then r (\<lambda>x s. (g x s, s))) = snd r"
  by (cases r) (auto simp: and_then_def split: sum.splits)

lemma after_call_invariant:
  assumes "invariant ps0 ps"
  shows "invariant ps0 (after_call pm ps c)"
proof (cases c)
  case (Call_U angles)
  then show ?thesis
    using calculate_propagator_invariant [OF assms, of pm angles]
    by (simp add: after_call_def U_def and_then_snd)
next
  case (Call_d_U angles)
  then show ?thesis
    using calculate_propagator_invariant [OF assms, of pm angles]
    by (simp add: after_call_def d_U_def and_then_snd)
next
  case (Call_distance angles phases)
  have "snd (distance pm ps angles phases)
          = (if m_target ps = None then ps else snd (calculate_all pm ps angles phases))"
    by (cases "calculate_all pm ps angles phases")
       (auto simp: distance_def and_then_def split: sum.splits option.splits)
  then show ?thesis
    using Call_distance assms calculate_all_invariant [OF assms, of pm angles phases]
    by (simp add: after_call_def)
next
  case (Call_d_distance angles phases)
  have "snd (d_distance pm ps angles phases)
          = (if m_target ps = None \<or> \<not> (fixed_phase ps \<or> phases \<noteq> None) then ps
             else snd (calculate_all pm ps angles phases))"
    by (cases "calculate_all pm ps angles phases")
       (auto simp: d_distance_def and_then_def split: sum.splits option.splits)
  then show ?thesis
    using Call_d_distance assms calculate_all_invariant [OF assms, of pm angles phases]
    by (auto simp: after_call_def)
next
  case (Call_trace angles)
  then show ?thesis
    using update_angles_invariant [OF assms, of angles]
    by (simp add: after_call_def trace_def and_then_snd)
qed

lemma run_invariant:
  "invariant ps0 ps \<Longrightarrow> invariant ps0 (run pm ps calls)"
  unfolding run_def
  by (induction calls arbitrary: ps) (simp_all add: after_call_invariant)

lemma init_run_invariant:
  assumes "init pm mem cols tgt fixed st = Inr ps0"
  shows "invariant ps0 (run pm ps0 calls)"
proof -
  have "phases_ok ps0"
    using init_Inr(1) [OF assms] new_instance_phases_ok by blast
  then show ?thesis
    using run_invariant [OF invariant_refl [OF init_well_formed [OF assms]]] by blast
qed

section \<open>Targets of one component\<close>

lemma distance_errors:
  assumes "m_target ps \<noteq> None" "fixed_phase ps \<or> phases \<noteq> None"
    and "fst (distance pm ps angles phases) = Inl e"
  shows "\<not> usage_error e"
proof -
  obtain r ps' where r: "calculate_all pm ps angles phases = (r, ps')"
    by (cases "calculate_all pm ps angles phases")
  obtain t where t: "m_target ps = Some t" using assms(1) by auto
  show ?thesis
  proof (cases r)
    case (Inl e')
    then have "e = e'" using assms(3) t by (simp add: distance_def r)
    then show ?thesis
      using calculate_all_errors [of ps phases pm angles e'] assms Inl r by auto
  next
    case (Inr u)
    then have "e = AttributeError"
      using assms(3) t by (simp add: distance_def r split: option.splits)
    then show ?thesis by (simp add: usage_error_def)
  qed
qed

lemma d_distance_errors:
  assumes "m_target ps \<noteq> None" "fixed_phase ps \<or> phases \<noteq> None"
    and "fst (d_distance pm ps angles phases) = Inl e"
  shows "\<not> usage_error e"
proof -
  obtain r ps' where r: "calculate_all pm ps angles phases = (r, ps')"
    by (cases "calculate_all pm ps angles phases")
  obtain t where t: "m_target ps = Some t" using assms(1) by auto
  have pre: "\<not> (\<not> fixed_phase ps \<and> phases = None)" using assms(2) by auto
  show ?thesis
  proof (cases r)
    case (Inl e')
    then have "e = e'" using assms(3) t by (simp add: d_distance_def r pre)
    then show ?thesis
      using calculate_all_errors [of ps phases pm angles e'] assms Inl r by auto
  next
    case (Inr u)
    then have "e = AttributeError"
      using assms(3) t by (auto simp: d_distance_def r pre split: option.splits if_splits)
    then show ?thesis by (simp add: usage_error_def)
  qed
qed

lemma invariantD:
  assumes "invariant ps0 ps"
  shows "fixed_phase ps = fixed_phase ps0" "m_len ps = m_len ps0" "target ps = target ps0"
    "m_n_phases ps = m_n_phases ps0" "ns ps = ns ps0" "colours ps = colours ps0"
    "(m_target ps = None) = (target ps0 = None)" "well_formed ps" "phases_ok ps"
  using assms by (auto simp: invariant_def config_def phases_ok_def)

text \<open>
  C9: an instance constructed with a target of exactly one component is in fixed-phase
  mode whatever \<open>fixed_phase\<close> argument was passed, it stays so through every later
  call, and neither \<open>distance\<close> nor \<open>d_distance\<close> ever asks for phases.
\<close>

theorem single_component_target_is_fixed_phase:
  assumes "init pm mem cols (Some [t]) fixed st = Inr ps0"
  shows "fixed_phase (run pm ps0 calls) \<and>
         fst (distance pm (run pm ps0 calls) angles None) \<noteq> Inl (AssertionError PhasesNeeded) \<and>
         fst (d_distance pm (run pm ps0 calls) angles None) \<noteq> Inl (AssertionError PhasesNeeded)"
proof -
  obtain n where ps0: "ps0 = new_instance pm mem cols (Some [t]) fixed (default_start st) n"
    using init_Inr(1) [OF assms] by blast
  have inv: "invariant ps0 (run pm ps0 calls)"
    using init_run_invariant [OF assms] .
  have fp: "fixed_phase (run pm ps0 calls)" and tg: "m_target (run pm ps0 calls) \<noteq> None"
    using invariantD(1,7) [OF inv] by (simp_all add: ps0)
  show ?thesis
    using fp distance_errors [OF tg, of None pm angles "AssertionError PhasesNeeded"]
      d_distance_errors [OF tg, of None pm angles "AssertionError PhasesNeeded"]
    by (auto simp: usage_error_def)
qed

lemma example_single_init:
  "init example_pm example_mem [Carrier, Red] (Some [(0, Ground, 0)]) False None
     = Inr example_single_ps"
  by (simp add: init_def truncation_size_def py_max_def motional_def default_start_def
      example_pm_def example_single_ps_def)

theorem single_component_target_is_fixed_phase_witness:
  "init example_pm example_mem [Carrier, Red] (Some [(0, Ground, 0)]) False None
     = Inr example_single_ps \<and>
   fixed_phase (run example_pm example_single_ps [Call_U (Some [1, 1])]) \<and>
   fst (distance example_pm (run example_pm example_single_ps [Call_U (Some [1, 1])])
          (Some [1, 1]) None) \<noteq> Inl (AssertionError PhasesNeeded) \<and>
   fst (d_distance example_pm (run example_pm example_single_ps [Call_U (Some [1, 1])])
          (Some [1, 1]) None) \<noteq> Inl (AssertionError PhasesNeeded)"
  using single_component_target_is_fixed_phase [OF example_single_init,
      of "[Call_U (Some [1, 1])]" "Some [1, 1]"]
  by (simp add: example_single_init)

section \<open>Unpacking an optimiser result\<close>

text \<open>
  C7: in fixed-phase mode \<open>split_result\<close> returns the solution vector and the phase
  vector \<open>[0.0]\<close>. In free-phase mode with a target of \<open>k\<close> components and a solution
  vector of \<open>L + k - 1\<close> entries, as \<open>optimise\<close> produces it, it returns the first \<open>L\<close>
  entries as angles and the remaining \<open>k - 1\<close> entries, a zero prepended, as phases.
\<close>

theorem split_result_parts:
  "(fixed_phase ps \<longrightarrow> split_result ps x = Inr (x, [0])) \<and>
   (\<not> fixed_phase ps \<and> m_n_phases ps = Some (int k - 1) \<and> 2 \<le> k \<and>
    length x = m_len ps + (k - 1) \<longrightarrow>
      split_result ps x = Inr (take (m_len ps) x, 0 # drop (m_len ps) x))"
  by (auto simp: split_result_def slice_to_def slice_from_def nat_diff_distrib)

theorem split_result_parts_witness:
  "fixed_phase example_ps \<and> split_result example_ps [1 / 2, 1 / 3] = Inr ([1 / 2, 1 / 3], [0]) \<and>
   \<not> fixed_phase example_free_ps \<and> m_n_phases example_free_ps = Some (int 2 - 1) \<and>
   (2 :: nat) \<le> 2 \<and> length [1 / 2, 1 / 4 :: real] = m_len example_free_ps + (2 - 1) \<and>
   split_result example_free_ps [1 / 2, 1 / 4] = Inr ([1 / 2], [0, 1 / 4])"
  using split_result_parts [of example_ps "[1 / 2, 1 / 3]" 2]
    split_result_parts [of example_free_ps "[1 / 2, 1 / 4]" 2]
  by (simp add: example_ps_facts example_free_ps_facts)

section \<open>The phase argument in free-phase mode\<close>

lemma phases_frame [simp]:
  "m_new_target (update_propagator_and_derivatives pm ps) = m_new_target ps"
  "m_phases (update_distance pm t ps) = m_phases ps"
  "m_new_target (update_distance pm t ps) = m_new_target ps"
  "m_phases (update_distance_angle_derivatives pm t ps) = m_phases ps"
  "m_new_target (update_distance_angle_derivatives pm t ps) = m_new_target ps"
  "m_phases (snd (update_distance_phase_derivatives pm ps)) = m_phases ps"
  "m_new_target (snd (update_distance_phase_derivatives pm ps)) = m_new_target ps"
  by (simp_all add: update_propagator_and_derivatives_def update_distance_def
      update_distance_angle_derivatives_def update_distance_phase_derivatives_def Let_def
      split: option.splits list.splits prod.splits sum.splits)

text \<open>What \<open>__calculate_all\<close> does after the angles and the phases have been looked at.\<close>

lemma calculate_all_tail:
  assumes "update_angles_if_required ps angles = (Inr ua, ps1)"
    and "update_phases_if_required pm ps1 phases = (Inr up, ps2)"
    and "m_target ps = None \<or> fixed_phase ps \<or> phases \<noteq> None"
  shows "m_phases (snd (calculate_all pm ps angles phases)) = m_phases ps2"
    and "m_new_target (snd (calculate_all pm ps angles phases)) = m_new_target ps2"
    and "fst (calculate_all pm ps angles phases) \<noteq> Inl (AssertionError m)"
proof -
  show "m_phases (snd (calculate_all pm ps angles phases)) = m_phases ps2"
    and "m_new_target (snd (calculate_all pm ps angles phases)) = m_new_target ps2"
    using assms by (simp_all add: calculate_all_def Let_def split: option.splits)
  have "e = IndexError \<or> e = TypeError \<or> e = ZeroDivisionError \<or> e = AttributeError"
    if "fst (calculate_all pm ps angles phases) = Inl e" for e
  proof -
    have "\<exists>s. fst (update_distance_phase_derivatives pm s) = Inl e"
      using assms that
      by (auto simp: calculate_all_def Let_def split: if_splits option.splits)
    then show ?thesis
      using update_distance_phase_derivatives_errors by blast
  qed
  then show "fst (calculate_all pm ps angles phases) \<noteq> Inl (AssertionError m)"
    by blast
qed

lemma calculate_all_phases:
  assumes "invariant ps0 ps" "\<not> fixed_phase ps" "target ps = Some tg" "2 \<le> length tg"
    and "length a = m_len ps"
  shows "length p + 1 = length tg \<or> length p = length tg \<Longrightarrow>
           m_phases (snd (calculate_all pm ps (Some a) (Some p)))
             = Some (stored_phases (length tg) p) \<and>
           m_new_target (snd (calculate_all pm ps (Some a) (Some p)))
             = Some (pinned_target tg (stored_phases (length tg) p)) \<and>
           (\<forall>m. fst (calculate_all pm ps (Some a) (Some p)) \<noteq> Inl (AssertionError m))"
    and "length p + 1 \<noteq> length tg \<and> length p \<noteq> length tg \<Longrightarrow>
           fst (calculate_all pm ps (Some a) (Some p))
             = Inl (AssertionError (PhasesLength (length tg) (length p)))"
proof -
  obtain ua ps1 where r1: "update_angles_if_required ps (Some a) = (Inr ua, ps1)"
    using assms(5) update_angles_same [of ps a] update_angles_changed [of ps a]
    by (cases "m_angles ps = Some a") blast+
  have inv1: "invariant ps0 ps1"
    using update_angles_invariant [OF assms(1), of "Some a"] by (simp add: r1)
  have f1: "\<not> fixed_phase ps1" "target ps1 = Some tg" "m_target ps1 \<noteq> None"
    "phases_ok ps1"
    using update_angles_frame(1,2,6) [of ps "Some a"] assms(1,2,3) invariantD(9) [OF inv1]
    by (auto simp: r1 invariant_def phases_ok_def)
  {
    assume len: "length p + 1 = length tg \<or> length p = length tg"
    have "\<exists>up ps2. update_phases_if_required pm ps1 (Some p) = (Inr up, ps2) \<and>
            m_phases ps2 = Some (stored_phases (length tg) p) \<and>
            m_new_target ps2 = Some (pinned_target tg (stored_phases (length tg) p))"
    proof (cases "array_equal (m_phases ps1) p")
      case True
      then have "length p + 1 = length tg"
        "m_new_target ps1 = Some (pinned_target tg p)"
        using f1 by (auto simp: array_equal_def phases_ok_def)
      then show ?thesis
        using True f1 by (auto simp: update_phases_if_required_def stored_phases_def
            array_equal_def)
    next
      case False
      then show ?thesis
        using update_phases_result [OF f1(4,3,1,2) False, of pm] len assms(4) by auto
    qed
    then obtain up ps2 where r2: "update_phases_if_required pm ps1 (Some p) = (Inr up, ps2)"
      "m_phases ps2 = Some (stored_phases (length tg) p)"
      "m_new_target ps2 = Some (pinned_target tg (stored_phases (length tg) p))"
      by blast
    show "m_phases (snd (calculate_all pm ps (Some a) (Some p)))
             = Some (stored_phases (length tg) p) \<and>
           m_new_target (snd (calculate_all pm ps (Some a) (Some p)))
             = Some (pinned_target tg (stored_phases (length tg) p)) \<and>
           (\<forall>m. fst (calculate_all pm ps (Some a) (Some p)) \<noteq> Inl (AssertionError m))"
      using calculate_all_tail [OF r1 r2(1)] r2(2,3) by simp
  }
  {
    assume len: "length p + 1 \<noteq> length tg \<and> length p \<noteq> length tg"
    have ne: "\<not> array_equal (m_phases ps1) p"
      using f1 len by (auto simp: array_equal_def phases_ok_def)
    show "fst (calculate_all pm ps (Some a) (Some p))
             = Inl (AssertionError (PhasesLength (length tg) (length p)))"
      using update_phases_result [OF f1(4,3,1,2) ne, of pm] len
      by (simp add: calculate_all_def r1)
  }
qed

lemma distance_via_calculate_all:
  assumes "m_target ps \<noteq> None"
  shows "snd (distance pm ps angles phases) = snd (calculate_all pm ps angles phases)"
    and "(fst (distance pm ps angles phases) = Inl (AssertionError m))
           = (fst (calculate_all pm ps angles phases) = Inl (AssertionError m))"
  using assms
  by (cases "calculate_all pm ps angles phases";
      auto simp: distance_def and_then_def split: sum.splits option.splits)+

lemma d_distance_via_calculate_all:
  assumes "m_target ps \<noteq> None" "phases \<noteq> None"
  shows "snd (d_distance pm ps angles phases) = snd (calculate_all pm ps angles phases)"
    and "(fst (d_distance pm ps angles phases) = Inl (AssertionError m))
           = (fst (calculate_all pm ps angles phases) = Inl (AssertionError m))"
  using assms
  by (cases "calculate_all pm ps angles phases";
      auto simp: d_distance_def and_then_def split: sum.splits option.splits)+

text \<open>
  C10: on an instance in free-phase mode with a target of \<open>k\<close> components, at any
  point of its life, \<open>distance\<close> and \<open>d_distance\<close> take a phase vector of \<open>k - 1\<close> or
  of \<open>k\<close> entries without an assertion failure. They store the \<open>k - 1\<close> entries as
  given, and of \<open>k\<close> entries they store all but the first, each less the first; the
  scratch target then has its first component at phase 0 and the others at the stored
  phases. Every other length fails the length assertion.
\<close>

theorem phase_vector_lengths:
  assumes "init pm mem cols (Some tg) False st = Inr ps0" and "2 \<le> length tg"
    and "length a = length cols"
  shows "(length p + 1 = length tg \<or> length p = length tg \<longrightarrow>
            m_phases (snd (distance pm (run pm ps0 calls) (Some a) (Some p)))
              = Some (stored_phases (length tg) p) \<and>
            m_new_target (snd (distance pm (run pm ps0 calls) (Some a) (Some p)))
              = Some (pinned_target tg (stored_phases (length tg) p)) \<and>
            (\<forall>m. fst (distance pm (run pm ps0 calls) (Some a) (Some p))
                   \<noteq> Inl (AssertionError m)) \<and>
            m_phases (snd (d_distance pm (run pm ps0 calls) (Some a) (Some p)))
              = Some (stored_phases (length tg) p) \<and>
            m_new_target (snd (d_distance pm (run pm ps0 calls) (Some a) (Some p)))
              = Some (pinned_target tg (stored_phases (length tg) p)) \<and>
            (\<forall>m. fst (d_distance pm (run pm ps0 calls) (Some a) (Some p))
                   \<noteq> Inl (AssertionError m))) \<and>
         (length p + 1 \<noteq> length tg \<and> length p \<noteq> length tg \<longrightarrow>
            fst (distance pm (run pm ps0 calls) (Some a) (Some p))
              = Inl (AssertionError (PhasesLength (length tg) (length p))) \<and>
            fst (d_distance pm (run pm ps0 calls) (Some a) (Some p))
              = Inl (AssertionError (PhasesLength (length tg) (length p))))"
proof -
  define ps where "ps = run pm ps0 calls"
  obtain n where ps0: "ps0 = new_instance pm mem cols (Some tg) False (default_start st) n"
    using init_Inr(1) [OF assms(1)] by blast
  have inv: "invariant ps0 ps"
    using init_run_invariant [OF assms(1)] by (simp add: ps_def)
  have free: "\<not> fixed_phase ps" and tg: "target ps = Some tg" and len: "length a = m_len ps"
    and mt: "m_target ps \<noteq> None"
    using invariantD(1,2,3,7) [OF inv] assms(2,3) by (simp_all add: ps0)
  note ca = calculate_all_phases [OF inv free tg assms(2) len, of p pm]
  note d = distance_via_calculate_all [OF mt, of pm "Some a" "Some p"]
  note dd = d_distance_via_calculate_all [OF mt, of "Some p" pm "Some a"]
  have "length p + 1 = length tg \<or> length p = length tg \<Longrightarrow>
            m_phases (snd (distance pm ps (Some a) (Some p)))
              = Some (stored_phases (length tg) p) \<and>
            m_new_target (snd (distance pm ps (Some a) (Some p)))
              = Some (pinned_target tg (stored_phases (length tg) p)) \<and>
            (\<forall>m. fst (distance pm ps (Some a) (Some p)) \<noteq> Inl (AssertionError m)) \<and>
            m_phases (snd (d_distance pm ps (Some a) (Some p)))
              = Some (stored_phases (length tg) p) \<and>
            m_new_target (snd (d_distance pm ps (Some a) (Some p)))
              = Some (pinned_target tg (stored_phases (length tg) p)) \<and>
            (\<forall>m. fst (d_distance pm ps (Some a) (Some p)) \<noteq> Inl (AssertionError m))"
    using ca(1) by (simp add: d dd)
  moreover have "length p + 1 \<noteq> length tg \<and> length p \<noteq> length tg \<Longrightarrow>
            fst (distance pm ps (Some a) (Some p))
              = Inl (AssertionError (PhasesLength (length tg) (length p))) \<and>
            fst (d_distance pm ps (Some a) (Some p))
              = Inl (AssertionError (PhasesLength (length tg) (length p)))"
    using ca(2) by (simp add: d dd)
  ultimately show ?thesis
    unfolding ps_def by blast
qed

theorem phase_vector_lengths_witness:
  "init example_pm example_mem [Carrier] (Some [(0, Ground, 0), (1, Ground, 0)]) False None
     = Inr example_free_ps \<and>
   2 \<le> length [(0, Ground, 0), (1 :: nat, Ground, 0 :: real)] \<and>
   length [1 :: real] = length [Carrier] \<and>
   m_phases (snd (distance example_pm (run example_pm example_free_ps []) (Some [1])
                    (Some [1 / 2, 3 / 4]))) = Some [1 / 4] \<and>
   m_new_target (snd (distance example_pm (run example_pm example_free_ps []) (Some [1])
                        (Some [1 / 2, 3 / 4]))) = Some [(0, Ground, 0), (1, Ground, 1 / 4)] \<and>
   m_phases (snd (distance example_pm (run example_pm example_free_ps []) (Some [1])
                    (Some [3 / 4]))) = Some [3 / 4] \<and>
   fst (d_distance example_pm (run example_pm example_free_ps []) (Some [1])
          (Some [1, 2, 3])) = Inl (AssertionError (PhasesLength 2 3)) \<and>
   fst (distance example_pm (run example_pm example_free_ps []) (Some [1]) (Some []))
     = Inl (AssertionError (PhasesLength 2 0))"
  using phase_vector_lengths [OF example_free_init, of "[1]" "[1 / 2, 3 / 4]" "[]"]
    phase_vector_lengths [OF example_free_init, of "[1]" "[3 / 4]" "[]"]
    phase_vector_lengths [OF example_free_init, of "[1]" "[1, 2, 3]" "[]"]
    phase_vector_lengths [OF example_free_init, of "[1]" "[]" "[]"]
    example_free_init
  by (simp add: stored_phases_def pinned_target_def set_phase_def)

section \<open>The value of the distance\<close>

lemma distance_recomputed:
  assumes "well_formed ps" "fixed_phase ps" "m_target ps = Some t"
    and "length a = m_len ps" "m_angles ps \<noteq> Some a"
  shows "fst (distance pm ps (Some a) phases) =
           Inr (Fin (1 - Re (inner_product pm t
                               (matrix_product (2 * ns ps)
                                  (pulse_matrices pm (colours ps) (ns ps) a))
                               (start ps) *
                             cnj (inner_product pm t
                               (matrix_product (2 * ns ps)
                                  (pulse_matrices pm (colours ps) (ns ps) a))
                               (start ps)))))"
proof -
  define ps1 where "ps1 = ps\<lparr>m_angles := Some a, m_lin_ops := set_angles (m_lin_ops ps) a\<rparr>"
  define ps3 where "ps3 = update_propagator_and_derivatives pm ps1"
  have wf1: "well_formed ps1"
    using update_angles_well_formed [OF assms(1,4)] by (simp add: ps1_def)
  have ops: "length (m_lin_ops ps) = m_len ps" "map co_colour (m_lin_ops ps) = colours ps"
    "map co_ns (m_lin_ops ps) = replicate (m_len ps) (ns ps)"
    using assms(1) length_map [of co_colour "m_lin_ops ps"] by (simp_all add: well_formed_def)
  have "map (op pm) (m_lin_ops ps1) = pulse_matrices pm (colours ps) (ns ps) a"
    using set_angles_matrices [of a "m_lin_ops ps" "ns ps" pm] ops assms(4)
    by (simp add: ps1_def)
  then have u: "m_u ps3 = matrix_product (2 * ns ps) (pulse_matrices pm (colours ps) (ns ps) a)"
    using propagator_is_product [OF wf1, of pm] by (simp add: ps3_def) (simp add: ps1_def)
  have f3: "m_target ps3 = Some t" "start ps3 = start ps" "fixed_phase ps1"
    "m_target ps1 = Some t"
    using assms(2,3)
    by (simp_all add: ps3_def update_propagator_and_derivatives_def Let_def ps1_def)
  have "calculate_all pm ps (Some a) phases
          = (Inr (), update_distance_angle_derivatives pm t (update_distance pm t ps3))"
    using assms(2,3,4,5) f3
    by (simp add: calculate_all_def update_angles_changed update_phases_fixed
        ps1_def [symmetric] ps3_def [symmetric])
  then show ?thesis
    using assms(3) u f3
    by (simp add: distance_def update_distance_angle_derivatives_def update_distance_def Let_def)
qed

lemma distance_unchanged_angles:
  assumes "fixed_phase ps" "m_target ps \<noteq> None" "m_angles ps = Some a" "length a = m_len ps"
    and "m_dist ps = Some d"
  shows "distance pm ps (Some a) phases = (Inr d, ps)"
  using assms
  by (simp add: distance_def calculate_all_def update_angles_same update_phases_fixed)

lemma example_identity:
  "example_op Carrier 1 (Some 0) = [[1, 0], [0, 1]]"
  "example_op Red 1 (Some 0) = [[1, 0], [0, 1]]"
  by (simp_all add: example_op_def rot_cos_def rot_sin_def upt_0_2 complex_eq_iff)

lemma example_product_identity:
  "matrix_product 2 (pulse_matrices example_pm [Carrier, Red] 1 [0, 0]) = [[1, 0], [0, 1]]"
  by (simp add: matrix_product_def pulse_matrices_def example_pm_def example_identity
      np_identity_2 dot_mm_2 del: One_nat_def)

lemma example_ground_vector:
  "example_state_vector [(0, Ground, 0)] 1 = [0, 1]"
  by (simp add: example_state_vector_def example_idx_def upt_0_2)

lemma example_ps_vectors:
  "m_target example_ps = Some [0, 1]" "start example_ps = [0, 1]"
  by (simp_all add: example_ps_def new_instance_def example_pm_def example_ground_vector
      del: One_nat_def)

lemma example_overlap: "braket [0, 1] [[1, 0], [0, 1]] [0, 1] = 1"
  by (simp add: braket_def dot_mv_def upt_0_2)

text \<open>
  C2 fails on the code. On the fresh example instance \<open>distance([0, 0])\<close> is 0, the
  pulses at angle 0 being the identity; but once \<open>U([0, 0])\<close> has cached the angles,
  \<open>distance([0, 0])\<close> returns \<open>float("inf")\<close>, which is not in \<open>[0, 1]\<close>.
\<close>

theorem distance_is_inf_after_U:
  "fst (distance example_pm example_ps (Some [0, 0]) None) = Inr (Fin 0) \<and>
   fst (distance example_pm (snd (U example_pm example_ps (Some [0, 0]))) (Some [0, 0]) None)
     = Inr PosInf"
proof -
  have "fst (distance example_pm example_ps (Some [0, 0]) None) = Inr (Fin 0)"
    using distance_recomputed [of example_ps "[0, 1]" "[0, 0]" example_pm None]
    by (simp add: example_ps_facts example_ps_vectors example_product_identity del: One_nat_def)
       (simp add: example_pm_def example_overlap)
  moreover have "distance example_pm (snd (U example_pm example_ps (Some [0, 0]))) (Some [0, 0]) None
          = (Inr PosInf, snd (U example_pm example_ps (Some [0, 0])))"
    using U_changed [of example_ps "[0, 0]" example_pm]
    by (simp add: example_ps_facts distance_unchanged_angles)
  ultimately show ?thesis by simp
qed

section \<open>Overlaps and unitary matrices\<close>

lemma abs_sq_parts: "abs_sq z = Re z * Re z + Im z * Im z"
  by (simp add: abs_sq_def)

lemma abs_sq_nonneg: "0 \<le> abs_sq z"
  by (simp add: abs_sq_parts)

lemma abs_sq_zero_iff: "abs_sq z = 0 \<longleftrightarrow> z = 0"
proof
  assume "abs_sq z = 0"
  then have "Re z * Re z + Im z * Im z = 0" by (simp add: abs_sq_parts)
  then have "Re z = 0 \<and> Im z = 0"
    using sum_squares_eq_zero_iff [of "Re z" "Im z"] by simp
  then show "z = 0" by (simp add: complex_eq_iff)
next
  assume "z = 0"
  then show "abs_sq z = 0" by (simp add: abs_sq_parts)
qed

lemma abs_sq_cmod: "abs_sq z = (cmod z)\<^sup>2"
  using cmod_power2 [of z] by (simp add: abs_sq_parts power2_eq_square)

lemma norm_sq_nonneg: "0 \<le> norm_sq v"
  by (induction v) (simp_all add: norm_sq_def abs_sq_nonneg)

lemma norm_sq_zero_iff: "norm_sq v = 0 \<longleftrightarrow> v = replicate (length v) 0"
proof (induction v)
  case Nil
  then show ?case by (simp add: norm_sq_def)
next
  case (Cons x v)
  have "0 \<le> norm_sq v" "0 \<le> abs_sq x" by (rule norm_sq_nonneg, rule abs_sq_nonneg)
  moreover have "norm_sq (x # v) = abs_sq x + norm_sq v" by (simp add: norm_sq_def)
  ultimately have "norm_sq (x # v) = 0 \<longleftrightarrow> abs_sq x = 0 \<and> norm_sq v = 0"
    by linarith
  then show ?case using Cons.IH by (auto simp: abs_sq_zero_iff)
qed

lemma residual_scalar:
  "abs_sq (y - c * x) = abs_sq y - 2 * Re (cnj c * (cnj x * y)) + abs_sq c * abs_sq x"
  by (simp add: abs_sq_parts algebra_simps)

lemma residual:
  "length t = length w \<Longrightarrow>
   norm_sq (map2 (\<lambda>x y. y - c * x) t w)
     = norm_sq w - 2 * Re (cnj c * hdot t w) + abs_sq c * norm_sq t"
proof (induction t w rule: list_induct2)
  case Nil
  then show ?case by (simp add: norm_sq_def hdot_def)
next
  case (Cons x xs y ys)
  have "norm_sq (map2 (\<lambda>x y. y - c * x) (x # xs) (y # ys))
          = abs_sq (y - c * x) + norm_sq (map2 (\<lambda>x y. y - c * x) xs ys)"
    by (simp add: norm_sq_def)
  also have "\<dots> = (abs_sq y - 2 * Re (cnj c * (cnj x * y)) + abs_sq c * abs_sq x)
                   + (norm_sq ys - 2 * Re (cnj c * hdot xs ys) + abs_sq c * norm_sq xs)"
    by (simp only: residual_scalar Cons.IH)
  also have "\<dots> = norm_sq (y # ys) - 2 * Re (cnj c * hdot (x # xs) (y # ys))
                   + abs_sq c * norm_sq (x # xs)"
    by (simp add: norm_sq_def hdot_def algebra_simps)
  finally show ?case .
qed

lemma overlap_residual:
  assumes "length t = length w" "norm_sq t = 1"
  shows "norm_sq (map2 (\<lambda>x y. y - hdot t w * x) t w) = norm_sq w - abs_sq (hdot t w)"
proof -
  have "Re (cnj (hdot t w) * hdot t w) = abs_sq (hdot t w)"
    by (simp add: abs_sq_parts)
  then show ?thesis
    using residual [OF assms(1), of "hdot t w"] assms(2) by simp
qed

text \<open>Overlap with a unit vector: bounds, and when the overlap has modulus one.\<close>

lemma hdot_scaled:
  "hdot t (map (\<lambda>x. c * x) t) = c * complex_of_real (norm_sq t)"
proof (induction t)
  case Nil
  then show ?case by (simp add: hdot_def norm_sq_def)
next
  case (Cons x t)
  have "cnj x * (c * x) = c * complex_of_real (abs_sq x)"
    by (simp add: abs_sq_parts complex_eq_iff algebra_simps)
  then show ?case
    using Cons.IH by (simp add: hdot_def norm_sq_def algebra_simps)
qed

lemma overlap_bounds:
  assumes "length t = length w" "norm_sq t = 1" "norm_sq w = 1"
  shows "0 \<le> 1 - abs_sq (hdot t w)" and "1 - abs_sq (hdot t w) \<le> 1"
    and "(1 - abs_sq (hdot t w) = 0) = (\<exists>c. cmod c = 1 \<and> w = map (\<lambda>x. c * x) t)"
proof -
  define c where "c = hdot t w"
  define r where "r = map2 (\<lambda>x y. y - c * x) t w"
  have res: "norm_sq r = 1 - abs_sq c"
    using overlap_residual [OF assms(1,2)] assms(3) by (simp add: r_def c_def)
  show "0 \<le> 1 - abs_sq (hdot t w)"
    using norm_sq_nonneg [of r] res by (simp add: c_def)
  show "1 - abs_sq (hdot t w) \<le> 1"
    using abs_sq_nonneg [of c] by (simp add: c_def)
  show "(1 - abs_sq (hdot t w) = 0) = (\<exists>c. cmod c = 1 \<and> w = map (\<lambda>x. c * x) t)"
  proof
    assume "1 - abs_sq (hdot t w) = 0"
    then have one: "abs_sq c = 1" and "norm_sq r = 0" using res by (simp_all add: c_def)
    then have "r = replicate (length r) 0" using norm_sq_zero_iff by blast
    then have "\<forall>i < length w. r ! i = 0"
      using assms(1) by (metis nth_replicate length_replicate r_def length_map length_zip
          min.idem)
    then have "\<forall>i < length w. w ! i = c * t ! i"
      using assms(1) by (simp add: r_def)
    then have "w = map (\<lambda>x. c * x) t"
      using assms(1) by (simp add: list_eq_iff_nth_eq)
    moreover have "cmod c = 1"
      using one abs_sq_cmod [of c] norm_ge_zero [of c] by (auto simp: power2_eq_1_iff)
    ultimately show "\<exists>c. cmod c = 1 \<and> w = map (\<lambda>x. c * x) t" by blast
  next
    assume "\<exists>c. cmod c = 1 \<and> w = map (\<lambda>x. c * x) t"
    then obtain c' where c': "cmod c' = 1" "w = map (\<lambda>x. c' * x) t" by blast
    have "hdot t w = c'"
      using hdot_scaled [of t c'] assms(2) c'(2) by simp
    then show "1 - abs_sq (hdot t w) = 0"
      using c'(1) by (simp add: abs_sq_cmod)
  qed
qed

lemma sum_list_upt: "sum_list (map f [0..<n]) = sum f {..<n}"
  by (simp add: interv_sum_list_conv_sum_set_nat lessThan_atLeast0)

lemma dot_mv_nth:
  "r < length m \<Longrightarrow> dot_mv m v ! r = (\<Sum>k<length v. m ! r ! k * v ! k)"
  by (simp add: dot_mv_def sum_list_upt)

lemma length_dot_mv [simp]: "length (dot_mv m v) = length m"
  by (simp add: dot_mv_def)

lemma length_dot_mm [simp]: "length (dot_mm a b) = length a"
  by (simp add: dot_mm_def)

lemma is_unitary_shape:
  assumes "is_unitary d m"
  shows "length m = d" and "r < d \<Longrightarrow> length (m ! r) = d" and "ncols m = d"
proof -
  show len: "length m = d" using assms by (simp add: is_unitary_def)
  show row: "length (m ! r) = d" if "r < d" for r
    using assms that by (simp add: is_unitary_def list_all_length)
  show "ncols m = d"
    using len row [of 0] by (cases m) (auto simp: ncols_def)
qed

lemma is_unitary_columns:
  assumes "is_unitary d m" "k < d" "j < d"
  shows "(\<Sum>r<d. m ! r ! k * cnj (m ! r ! j)) = (if k = j then 1 else 0)"
  using assms by (simp add: is_unitary_def list_all_length sum_list_upt)

lemma dot_mv_assoc:
  assumes "is_unitary d m" "length v = d"
  shows "dot_mv (dot_mm p m) v = dot_mv p (dot_mv m v)"
proof -
  have "(\<Sum>j<d. (\<Sum>k<d. row ! k * m ! k ! j) * v ! j)
          = (\<Sum>k<d. row ! k * (\<Sum>j<d. m ! k ! j * v ! j))" for row :: cvec
  proof -
    have "(\<Sum>j<d. (\<Sum>k<d. row ! k * m ! k ! j) * v ! j)
            = (\<Sum>j<d. \<Sum>k<d. row ! k * (m ! k ! j * v ! j))"
      by (simp add: sum_distrib_right mult.assoc)
    also have "\<dots> = (\<Sum>k<d. \<Sum>j<d. row ! k * (m ! k ! j * v ! j))"
      by (rule sum.swap)
    also have "\<dots> = (\<Sum>k<d. row ! k * (\<Sum>j<d. m ! k ! j * v ! j))"
      by (simp add: sum_distrib_left)
    finally show ?thesis .
  qed
  moreover have "(\<Sum>k<d. row ! k * dot_mv m v ! k) = (\<Sum>k<d. row ! k * (\<Sum>j<d. m ! k ! j * v ! j))"
    for row :: cvec
    using is_unitary_shape(1) [OF assms(1)] assms(2) by (simp add: dot_mv_nth)
  ultimately show ?thesis
    using is_unitary_shape(1,3) [OF assms(1)] assms(2)
    by (simp add: dot_mv_def dot_mm_def sum_list_upt)
qed

lemma norm_sq_sum:
  "complex_of_real (norm_sq v) = (\<Sum>i<length v. v ! i * cnj (v ! i))"
proof -
  have "norm_sq v = (\<Sum>i<length v. abs_sq (v ! i))"
    using sum_list_sum_nth [of "map abs_sq v"] by (simp add: norm_sq_def lessThan_atLeast0)
  moreover have "complex_of_real (abs_sq z) = z * cnj z" for z
    by (simp add: abs_sq_parts complex_mult_cnj power2_eq_square)
  ultimately show ?thesis by simp
qed

lemma sum_delta_mult:
  fixes f :: "nat \<Rightarrow> complex"
  shows "i < d \<Longrightarrow> (\<Sum>j<d. f j * (if i = j then 1 else 0)) = f i"
proof -
  assume "i < d"
  have "(\<Sum>j<d. f j * (if i = j then 1 else 0)) = (\<Sum>j<d. if i = j then f j else 0)"
    by (intro sum.cong refl) simp
  then show ?thesis using \<open>i < d\<close> by (simp add: sum.delta)
qed

lemma unitary_preserves_norm:
  assumes "is_unitary d m" "length v = d"
  shows "norm_sq (dot_mv m v) = norm_sq v"
proof -
  have len: "length m = d" using is_unitary_shape(1) [OF assms(1)] .
  have "complex_of_real (norm_sq (dot_mv m v))
          = (\<Sum>r<d. (\<Sum>k<d. m ! r ! k * v ! k) * cnj (\<Sum>j<d. m ! r ! j * v ! j))"
    using len assms(2) by (simp add: norm_sq_sum dot_mv_nth)
  also have "\<dots> = (\<Sum>r<d. \<Sum>k<d. \<Sum>j<d. (m ! r ! k * v ! k) * (cnj (m ! r ! j) * cnj (v ! j)))"
    by (simp add: sum_product)
  also have "\<dots> = (\<Sum>k<d. \<Sum>r<d. \<Sum>j<d. (m ! r ! k * v ! k) * (cnj (m ! r ! j) * cnj (v ! j)))"
    by (rule sum.swap)
  also have "\<dots> = (\<Sum>k<d. \<Sum>j<d. \<Sum>r<d. (m ! r ! k * v ! k) * (cnj (m ! r ! j) * cnj (v ! j)))"
    by (rule sum.cong [OF refl]) (rule sum.swap)
  also have "\<dots> = (\<Sum>k<d. \<Sum>j<d. (v ! k * cnj (v ! j)) * (\<Sum>r<d. m ! r ! k * cnj (m ! r ! j)))"
    by (simp add: sum_distrib_left algebra_simps)
  also have "\<dots> = (\<Sum>k<d. \<Sum>j<d. (v ! k * cnj (v ! j)) * (if k = j then 1 else 0))"
    using is_unitary_columns [OF assms(1)] by (intro sum.cong refl) simp
  also have "\<dots> = (\<Sum>k<d. v ! k * cnj (v ! k))"
    using sum_delta_mult [of _ d "\<lambda>j. v ! _ * cnj (v ! j)"] by (intro sum.cong refl) simp
  also have "\<dots> = complex_of_real (norm_sq v)"
    using assms(2) by (simp add: norm_sq_sum)
  finally show ?thesis
    using of_real_eq_iff by blast
qed

lemma dot_mv_identity:
  "length v = d \<Longrightarrow> dot_mv (np_identity d) v = v"
proof -
  assume len: "length v = d"
  have "(\<Sum>k<d. (if i = k then 1 else 0) * v ! k) = v ! i" if "i < d" for i
  proof -
    have "(\<Sum>k<d. (if i = k then 1 else 0) * v ! k) = (\<Sum>k<d. if i = k then v ! k else 0)"
      by (intro sum.cong refl) simp
    then show ?thesis using that by (simp add: sum.delta)
  qed
  then show ?thesis
    using len by (simp add: list_eq_iff_nth_eq dot_mv_nth np_identity_def)
qed

lemma product_preserves_norm:
  assumes "list_all (is_unitary d) ms" "length v = d"
  shows "norm_sq (dot_mv (matrix_product d ms) v) = norm_sq v"
    and "length (dot_mv (matrix_product d ms) v) = d"
proof -
  have "length v = d \<Longrightarrow> list_all (is_unitary d) ms \<Longrightarrow>
        norm_sq (dot_mv (foldl dot_mm (np_identity d) ms) v) = norm_sq v \<and>
        length (foldl dot_mm (np_identity d) ms) = d" for v
  proof (induction ms arbitrary: v rule: rev_induct)
    case Nil
    then show ?case by (simp add: dot_mv_identity) (simp add: np_identity_def)
  next
    case (snoc m ms)
    have u: "is_unitary d m" and us: "list_all (is_unitary d) ms"
      using snoc.prems(2) by simp_all
    have "dot_mv (foldl dot_mm (np_identity d) (ms @ [m])) v
            = dot_mv (foldl dot_mm (np_identity d) ms) (dot_mv m v)"
      using dot_mv_assoc [OF u snoc.prems(1)] by simp
    moreover have "length (dot_mv m v) = d"
      using is_unitary_shape(1) [OF u] by simp
    ultimately show ?case
      using snoc.IH [of "dot_mv m v"] us unitary_preserves_norm [OF u snoc.prems(1)]
      by simp
  qed
  from this [of v] show "norm_sq (dot_mv (matrix_product d ms) v) = norm_sq v"
    and "length (dot_mv (matrix_product d ms) v) = d"
    using assms by (simp_all add: matrix_product_def)
qed

lemma braket_hdot:
  assumes "length (dot_mv u s) = length t"
  shows "braket t u s = hdot t (dot_mv u s)"
proof -
  define w where "w = dot_mv u s"
  have len: "length w = length t" using assms by (simp add: w_def)
  have "sum_list (map2 (\<lambda>x y. cnj x * y) t w)
          = (\<Sum>i<length t. map2 (\<lambda>x y. cnj x * y) t w ! i)"
    using sum_list_sum_nth [of "map2 (\<lambda>x y. cnj x * y) t w"] len
    by (simp add: lessThan_atLeast0)
  also have "\<dots> = (\<Sum>i<length t. cnj (t ! i) * w ! i)"
    using len by (intro sum.cong refl) simp
  finally show ?thesis
    by (simp add: braket_def hdot_def sum_list_upt w_def)
qed

text \<open>
  Where \<open>distance\<close> does compute, the value is as C2 says. For a fixed-phase instance
  whose cached angles differ from the given ones, with \<open>pm.inner_product\<close> the overlap
  \<open>\<langle>t|U|s\<rangle>\<close>, unitary pulse operators and unit target and start vectors of the
  instance's dimension, the distance lies in \<open>[0, 1]\<close> and is 0 exactly when \<open>U\<close>
  takes the start vector to a unit-modulus multiple of the target vector.
\<close>

lemma distance_recomputed_in_unit_interval:
  assumes "well_formed ps" "fixed_phase ps" "m_target ps = Some t"
    and "length a = m_len ps" "m_angles ps \<noteq> Some a"
    and "inner_product pm = braket"
    and "list_all (is_unitary (2 * ns ps)) (pulse_matrices pm (colours ps) (ns ps) a)"
    and "length t = 2 * ns ps" "norm_sq t = 1"
    and "length (start ps) = 2 * ns ps" "norm_sq (start ps) = 1"
  shows "\<exists>d. fst (distance pm ps (Some a) phases) = Inr (Fin d) \<and> 0 \<le> d \<and> d \<le> 1 \<and>
           ((d = 0) = (\<exists>c. cmod c = 1 \<and>
               dot_mv (matrix_product (2 * ns ps) (pulse_matrices pm (colours ps) (ns ps) a))
                 (start ps) = map (\<lambda>x. c * x) t))"
proof -
  define u where "u = matrix_product (2 * ns ps) (pulse_matrices pm (colours ps) (ns ps) a)"
  define w where "w = dot_mv u (start ps)"
  have w: "norm_sq w = 1" "length w = length t"
    using product_preserves_norm [OF assms(7,10)] assms(8,11) by (simp_all add: w_def u_def)
  have z: "inner_product pm t u (start ps) = hdot t w"
    using braket_hdot [of u "start ps" t] w(2) assms(6) by (simp add: w_def)
  have "fst (distance pm ps (Some a) phases) = Inr (Fin (1 - abs_sq (hdot t w)))"
    using distance_recomputed [OF assms(1,2,3,4,5), of pm phases]
    by (simp add: u_def [symmetric] z abs_sq_def)
  then show ?thesis
    using overlap_bounds [OF w(2) [symmetric] assms(9) w(1)]
    by (simp add: w_def u_def)
qed

text \<open>The example instance meets these conditions at the angles \<open>[1, 1]\<close>.\<close>

lemma example_unitary:
  "list_all (is_unitary 2) (pulse_matrices example_pm [Carrier, Red] 1 [1, 1])"
  by (simp add: pulse_matrices_def example_pm_def example_carrier example_red is_unitary_def
      upt_0_2 complex_eq_iff del: One_nat_def)

lemma example_distance_in_unit_interval:
  "\<exists>d. fst (distance example_pm example_ps (Some [1, 1]) None) = Inr (Fin d) \<and> 0 \<le> d \<and> d \<le> 1"
proof -
  have "norm_sq [0, 1] = 1" by (simp add: norm_sq_def abs_sq_def)
  moreover have "inner_product example_pm = braket" by (simp add: example_pm_def)
  ultimately show ?thesis
    using distance_recomputed_in_unit_interval [of example_ps "[0, 1]" "[1, 1]" example_pm None]
      example_unitary
    by (auto simp: example_ps_facts example_ps_vectors simp del: One_nat_def)
qed

end
